theory Spec2Isabelle
  imports Main "HOL-Library.Sublist" "HOL-Library.Word"
begin

section \<open>Python values and string operations used by the code\<close>

text \<open>
  Strings are \<^typ>\<open>string\<close>: sequences of code points below 256 (Latin-1). Exceptions
  are values of \<open>py_error\<close>; a function that can raise returns \<open>py_error + 'a\<close>
  with \<open>Inl\<close> for the exception that leaves it.
\<close>

datatype py_error =
  AttributeError | IndexError | KeyError | ValueError | SyntaxError | ParseError
  | Timeout | RequestException | OSError

text \<open>\<^verbatim>\<open>str.lower\<close> on one code point below 256: A-Z and the Latin-1 capitals
  (192..222 but the multiplication sign 215) move up by 32, everything else stays.\<close>

definition lower_char :: "char \<Rightarrow> char" where
  "lower_char c =
     (let n = (of_char c :: nat)
      in if (65 \<le> n \<and> n \<le> 90) \<or> (192 \<le> n \<and> n \<le> 222 \<and> n \<noteq> 215)
         then char_of (n + 32) else c)"

definition lower :: "string \<Rightarrow> string" where
  "lower s = map lower_char s"

text \<open>\<^verbatim>\<open>s.startswith(p)\<close>\<close>

fun startswith :: "'a list \<Rightarrow> 'a list \<Rightarrow> bool" where
  "startswith s [] = True"
| "startswith [] (p # ps) = False"
| "startswith (c # s) (p # ps) = (c = p \<and> startswith s ps)"

text \<open>\<^verbatim>\<open>needle in hay\<close> on strings: \<open>needle\<close> occurs in \<open>hay\<close> as a contiguous
  substring.\<close>

fun str_in :: "string \<Rightarrow> string \<Rightarrow> bool" where
  "str_in needle [] = (needle = [])"
| "str_in needle (c # s) = (startswith (c # s) needle \<or> str_in needle s)"

text \<open>\<^verbatim>\<open>d[k]\<close> on a dict kept as an association list in insertion order: a missing
  key raises \<open>KeyError\<close>.\<close>

definition dict_get :: "(string \<times> 'v) list \<Rightarrow> string \<Rightarrow> py_error + 'v" where
  "dict_get d k = (case map_of d k of None \<Rightarrow> Inl KeyError | Some v \<Rightarrow> Inr v)"

text \<open>\<^verbatim>\<open>list(dict.fromkeys(xs))\<close>: the keys of a dict filled from \<open>xs\<close> in order. A
  key that is already present keeps its first position.\<close>

fun fromkeys_loop :: "'a list \<Rightarrow> 'a list \<Rightarrow> 'a list" where
  "fromkeys_loop ks [] = ks"
| "fromkeys_loop ks (x # xs) = fromkeys_loop (if x \<in> set ks then ks else ks @ [x]) xs"

definition dict_fromkeys :: "'a list \<Rightarrow> 'a list" where
  "dict_fromkeys xs = fromkeys_loop [] xs"


section \<open>device\_contexts.py: the vendor catalog\<close>

record DeviceContext =
  name :: string
  ports :: "int list"
  paths :: "string list"
  keywords_list :: "string list"
  auth_modes :: "string list"
  media_services :: "string list"

definition tp_link :: DeviceContext where
  "tp_link = \<lparr>
     name = ''TP-Link'',
     ports = [2020, 80, 8080, 554],
     paths = [
       ''/onvif/snapshot'',
       ''/onvif/media/snapshot'',
       ''/onvif/media1/snapshot'',
       ''/onvif/media2/snapshot'',
       ''/onvif/media3/snapshot'',
       ''/onvif/media_service/snapshot'',
       ''/onvif/device_service/snapshot'',
       ''/onvif/event_service/snapshot'',
       ''/onvif/snapshot/jpeg'',
       ''/media/snapshot/stream'',
       ''/stream/snap'',
       ''/stream/snapshot''],
     keywords_list = [''tp-link'', ''tplink'', ''vigi''],
     auth_modes = [''Digest'', ''Basic''],
     media_services = [
       ''/onvif/media_service'',
       ''/onvif/device_service'',
       ''/onvif/service'']\<rparr>"

definition cp_plus :: DeviceContext where
  "cp_plus = \<lparr>
     name = ''CP-Plus'',
     ports = [80, 8000, 8080, 554],
     paths = [
       ''/onvif/media_service/snapshot'',
       ''/onvif/streaming/channels/1/picture'',
       ''/onvif/snap.jpg'',
       ''/picture/1/current'',
       ''/picture.jpg'',
       ''/picture/1'',
       ''/images/snapshot.jpg'',
       ''/cgi-bin/snapshot.cgi'',
       ''/cgi-bin/snapshot'',
       ''/jpeg'',
       ''/jpg/1/image.jpg'',
       ''/snap''],
     keywords_list = [''cp-plus'', ''cp plus'', ''cpplus''],
     auth_modes = [''Digest'', ''Basic''],
     media_services = [
       ''/onvif/media_service'',
       ''/onvif/streaming'',
       ''/media'']\<rparr>"

definition hikvision :: DeviceContext where
  "hikvision = \<lparr>
     name = ''Hikvision'',
     ports = [80, 8000, 554],
     paths = [
       ''/ISAPI/Streaming/channels/101/picture'',
       ''/ISAPI/Streaming/channels/1/picture'',
       ''/Streaming/channels/1/picture'',
       ''/onvif/snapshot'',
       ''/onvif-http/snapshot''],
     keywords_list = [''hikvision'', ''hik''],
     auth_modes = [''Digest'', ''Basic''],
     media_services = [
       ''/ISAPI/Streaming'',
       ''/onvif/media_service'']\<rparr>"

definition dahua :: DeviceContext where
  "dahua = \<lparr>
     name = ''Dahua'',
     ports = [80, 8080, 554],
     paths = [
       ''/cgi-bin/snapshot.cgi'',
       ''/cgi-bin/snapshot.cgi?channel=1'',
       ''/cgi-bin/snapManager.cgi?action=attachFileProc&Flags=1'',
       ''/snapshot/1'',
       ''/cgi-bin/snapshot''],
     keywords_list = [''dahua''],
     auth_modes = [''Digest'', ''Basic''],
     media_services = [
       ''/onvif/media_service'',
       ''/cgi-bin'']\<rparr>"

definition generic :: DeviceContext where
  "generic = \<lparr>
     name = ''Generic'',
     ports = [80, 8080, 554],
     paths = [
       ''/onvif-http/snapshot'',
       ''/onvif/camera/1/snapshot'',
       ''/snap.jpg'',
       ''/snapshot'',
       ''/image'',
       ''/image/jpeg.cgi'',
       ''/cgi-bin/snapshot.cgi'',
       ''/snapshot.jpg'',
       ''/jpeg'',
       ''/video.mjpg'',
       ''/cgi-bin/api.cgi?cmd=Snap&channel=1''],
     keywords_list = [],
     auth_modes = [''Digest'', ''Basic''],
     media_services = [
       ''/onvif/media_service'',
       ''/onvif/device_service'']\<rparr>"

text \<open>The dict \<^verbatim>\<open>DEVICE_CONTEXTS\<close>, in its insertion order (the order of
  \<^verbatim>\<open>.values()\<close>).\<close>

definition DEVICE_CONTEXTS :: "(string \<times> DeviceContext) list" where
  "DEVICE_CONTEXTS =
     [(''tp-link'', tp_link), (''cp-plus'', cp_plus), (''hikvision'', hikvision),
      (''dahua'', dahua), (''generic'', generic)]"

text \<open>\<^verbatim>\<open>DeviceContext.matches\<close>\<close>

definition matches :: "DeviceContext \<Rightarrow> string \<Rightarrow> bool" where
  "matches ctx device_name =
     (let device_name = lower device_name
      in list_ex (\<lambda>keyword. str_in (lower keyword) device_name) (keywords_list ctx))"

text \<open>\<^verbatim>\<open>DeviceContextManager.get_context\<close>: the loop over
  \<^verbatim>\<open>DEVICE_CONTEXTS.values()\<close> returns at the first context that matches.\<close>

definition get_context :: "string \<Rightarrow> py_error + DeviceContext" where
  "get_context device_name =
     (if device_name = [] then dict_get DEVICE_CONTEXTS ''generic''
      else (case find (\<lambda>ctx. matches ctx device_name) (map snd DEVICE_CONTEXTS) of
              Some ctx \<Rightarrow> Inr ctx
            | None \<Rightarrow> dict_get DEVICE_CONTEXTS ''generic''))"

text \<open>\<^verbatim>\<open>DeviceContextManager.get_all_paths\<close>\<close>

definition get_all_paths :: "DeviceContext \<Rightarrow> py_error + string list" where
  "get_all_paths ctx =
     (if lower (name ctx) \<noteq> ''generic''
      then (case dict_get DEVICE_CONTEXTS ''generic'' of
              Inl e \<Rightarrow> Inl e
            | Inr g \<Rightarrow> Inr (dict_fromkeys (paths ctx @ paths g)))
      else Inr (dict_fromkeys (paths ctx)))"



section \<open>urllib.parse.urlparse, as the code uses it\<close>

text \<open>\<^verbatim>\<open>s.partition(c)\<close> and \<^verbatim>\<open>s.rpartition(c)\<close> for a one-character separator:
  the part before, whether the separator was found, the part after. Without the separator
  \<^verbatim>\<open>partition\<close> puts the whole string first and \<^verbatim>\<open>rpartition\<close> puts it last.\<close>

fun partition_chr :: "char \<Rightarrow> string \<Rightarrow> string \<times> bool \<times> string" where
  "partition_chr c [] = ([], False, [])"
| "partition_chr c (x # xs) =
     (if x = c then ([], True, xs)
      else (case partition_chr c xs of (b, f, a) \<Rightarrow> (x # b, f, a)))"

definition rpartition_chr :: "char \<Rightarrow> string \<Rightarrow> string \<times> bool \<times> string" where
  "rpartition_chr c s =
     (case partition_chr c (rev s) of
        (b, f, a) \<Rightarrow> if f then (rev a, True, rev b) else ([], False, s))"

text \<open>\<^verbatim>\<open>str(n)\<close> for an integer, and \<^verbatim>\<open>int(s)\<close> for a string of ASCII digits.\<close>

function str_digits :: "int \<Rightarrow> string" where
  "str_digits n =
     (if n < 10 then [char_of (48 + n)]
      else str_digits (n div 10) @ [char_of (48 + n mod 10)])"
  by pat_completeness auto
termination
  by (relation "measure nat") auto

declare str_digits.simps [simp del]

definition str_int :: "int \<Rightarrow> string" where
  "str_int i = (if i < 0 then CHR ''-'' # str_digits (- i) else str_digits i)"

definition is_digit :: "char \<Rightarrow> bool" where
  "is_digit c = (48 \<le> (of_char c :: nat) \<and> (of_char c :: nat) \<le> 57)"

definition int_of_digits :: "string \<Rightarrow> int" where
  "int_of_digits s = foldl (\<lambda>acc c. 10 * acc + (int (of_char c) - 48)) 0 s"

text \<open>The six fields of \<^verbatim>\<open>ParseResult\<close>.\<close>

record ParseResult =
  scheme :: string
  netloc :: string
  path :: string
  params :: string
  query :: string
  fragment :: string

definition scheme_chars :: string where
  "scheme_chars = ''abcdefghijklmnopqrstuvwxyzABCDEFGHIJKLMNOPQRSTUVWXYZ0123456789+-.''"

definition uses_params :: "string list" where
  "uses_params = ['''', ''ftp'', ''hdl'', ''prospero'', ''http'', ''imap'',
                  ''https'', ''shttp'', ''rtsp'', ''rtsps'', ''rtspu'', ''sip'',
                  ''sips'', ''mms'', ''sftp'', ''tel'']"

definition is_ascii_alpha :: "char \<Rightarrow> bool" where
  "is_ascii_alpha c =
     (let n = (of_char c :: nat) in (65 \<le> n \<and> n \<le> 90) \<or> (97 \<le> n \<and> n \<le> 122))"

text \<open>\<^verbatim>\<open>_splitparams\<close>, called only when the path holds a semicolon.\<close>

definition splitparams :: "string \<Rightarrow> string \<times> string" where
  "splitparams url =
     (if CHR ''/'' \<in> set url
      then (case rpartition_chr CHR ''/'' url of
              (b, _, a) \<Rightarrow>
                (case partition_chr CHR '';'' a of
                   (pb, pf, pa) \<Rightarrow> if pf then (b @ ''/'' @ pb, pa) else (url, [])))
      else (case partition_chr CHR '';'' url of (b, _, a) \<Rightarrow> (b, a)))"

text \<open>
  \<^verbatim>\<open>urlparse(url)\<close> of CPython 3.11 (\<^verbatim>\<open>urlsplit\<close> followed by the split of the
  parameters). Leading C0 control characters and spaces are stripped, tab, CR and LF are
  removed, the scheme is cut at the first colon when everything before it is a scheme
  character, the netloc runs from \<^verbatim>\<open>//\<close> to the first of \<^verbatim>\<open>/ ? #\<close>, then fragment,
  query and parameters are cut off the path. A netloc with one bracket but not the other
  raises \<open>ValueError\<close>. For a netloc with both brackets Python validates the bracketed host
  with the \<^verbatim>\<open>ipaddress\<close> module, which is outside this model: the model raises
  \<open>ValueError\<close> for every bracketed netloc, so a successful parse in the model is a
  successful parse in Python, with the same fields. (\<^verbatim>\<open>_checknetloc\<close> never raises on
  code points below 256.)
\<close>

definition urlparse :: "string \<Rightarrow> py_error + ParseResult" where
  "urlparse url0 =
     (let url1 = dropWhile (\<lambda>c. (of_char c :: nat) \<le> 32) url0;
          url2 = filter (\<lambda>c. (of_char c :: nat) \<notin> {9, 13, 10}) url1;
          (sch, url3) =
             (case partition_chr CHR '':'' url2 of
                (b, f, a) \<Rightarrow>
                  if f \<and> b \<noteq> [] \<and> is_ascii_alpha (hd b) \<and> list_all (\<lambda>c. c \<in> set scheme_chars) b
                  then (lower b, a) else ([], url2));
          (nl, url4) =
             (if take 2 url3 = ''//''
              then (takeWhile (\<lambda>c. c \<notin> set ''/?#'') (drop 2 url3),
                    dropWhile (\<lambda>c. c \<notin> set ''/?#'') (drop 2 url3))
              else ([], url3))
      in if CHR ''['' \<in> set nl \<or> CHR '']'' \<in> set nl then Inl ValueError
         else
           (let (url5, frag) =
                  (case partition_chr CHR ''#'' url4 of (b, _, a) \<Rightarrow> (b, a));
                (url6, qry) =
                  (case partition_chr CHR ''?'' url5 of (b, _, a) \<Rightarrow> (b, a));
                (url7, prm) =
                  (if sch \<in> set uses_params \<and> CHR '';'' \<in> set url6
                   then splitparams url6 else (url6, []))
            in Inr \<lparr>scheme = sch, netloc = nl, path = url7, params = prm,
                     query = qry, fragment = frag\<rparr>))"

text \<open>The properties \<^verbatim>\<open>_hostinfo\<close>, \<^verbatim>\<open>hostname\<close> and \<^verbatim>\<open>port\<close> of the result.
  \<open>None\<close> is Python's \<^verbatim>\<open>None\<close>; \<^verbatim>\<open>port\<close> raises \<open>ValueError\<close> on a port that is
  not a string of ASCII digits or is above 65535.\<close>

definition hostinfo :: "ParseResult \<Rightarrow> string \<times> string option" where
  "hostinfo r =
     (case rpartition_chr CHR ''@'' (netloc r) of
        (_, _, hi) \<Rightarrow>
          (case partition_chr CHR ''['' hi of
             (_, have_open_br, bracketed) \<Rightarrow>
               (let (h, p) =
                      (if have_open_br
                       then (case partition_chr CHR '']'' bracketed of
                               (h, _, p) \<Rightarrow>
                                 (case partition_chr CHR '':'' p of (_, _, p') \<Rightarrow> (h, p')))
                       else (case partition_chr CHR '':'' hi of (h, _, p) \<Rightarrow> (h, p)))
                in (h, if p = [] then None else Some p))))"

definition hostname :: "ParseResult \<Rightarrow> string option" where
  "hostname r =
     (case hostinfo r of
        (h, _) \<Rightarrow>
          if h = [] then None
          else (case partition_chr CHR ''%'' h of
                  (h', percent, zone) \<Rightarrow>
                    Some (lower h' @ (if percent then ''%'' else []) @ zone)))"

definition port :: "ParseResult \<Rightarrow> py_error + int option" where
  "port r =
     (case hostinfo r of
        (_, None) \<Rightarrow> Inr None
      | (_, Some p) \<Rightarrow>
          if list_all is_digit p
          then (let n = int_of_digits p
                in if 0 \<le> n \<and> n \<le> 65535 then Inr (Some n) else Inl ValueError)
          else Inl ValueError)"

text \<open>How an f-string prints a value that may be \<^verbatim>\<open>None\<close>.\<close>

definition fmt_str :: "string option \<Rightarrow> string" where
  "fmt_str v = (case v of None \<Rightarrow> ''None'' | Some s \<Rightarrow> s)"

definition fmt_int :: "int option \<Rightarrow> string" where
  "fmt_int v = (case v of None \<Rightarrow> ''None'' | Some i \<Rightarrow> str_int i)"


section \<open>snapshot/profile.py: the stream URL\<close>

text \<open>\<^verbatim>\<open>MediaProfileHandler.normalize_rtsp_url\<close>. \<^verbatim>\<open>not parsed.port\<close> holds for
  \<^verbatim>\<open>None\<close> and for port 0.\<close>

definition normalize_rtsp_url :: "string \<Rightarrow> string \<Rightarrow> py_error + string" where
  "normalize_rtsp_url url device_host =
     (if \<not> startswith url ''rtsp://''
      then Inr (''rtsp://'' @ device_host @ '':'' @ str_int 554
                @ (if startswith url ''/'' then url else ''/'' @ url))
      else (case urlparse url of
              Inl e \<Rightarrow> Inl e
            | Inr parsed \<Rightarrow>
                (case port parsed of
                   Inl e \<Rightarrow> Inl e
                 | Inr p \<Rightarrow>
                     if p = None \<or> p = Some 0
                     then Inr (scheme parsed @ ''://'' @ (fmt_str (hostname parsed) @ '':554'')
                               @ path parsed)
                     else Inr url)))"

section \<open>The HTTP layer, XML documents and the other collaborators\<close>

type_synonym byte = "8 word"

text \<open>An element of \<^verbatim>\<open>xml.etree.ElementTree\<close>: the tag in Clark notation
  (\<^verbatim>\<open>{namespace}local\<close>), the attributes, the text, the children.\<close>

datatype xml = Element (tag: string) (attrib: "(string \<times> string) list")
  (elem_text: "string option") (children: "xml list")

text \<open>
  A response of \<^verbatim>\<open>requests\<close>: the status, the headers (one entry per header, names in
  lower case: the dict is case-insensitive), the body bytes, and what
  \<^verbatim>\<open>ET.fromstring(response.text)\<close> gives for the body (\<open>ParseError\<close> when it is not
  well-formed XML).
\<close>

record Response =
  status_code :: int
  headers :: "(string \<times> string) list"
  content :: "byte list"
  text_xml :: "py_error + xml"

text \<open>A request either gets a response or raises.\<close>

datatype http_outcome = Responded Response | Raised py_error

datatype auth_handler = HTTPDigestAuth string string | BasicAuth string string

text \<open>The SOAP envelopes the code posts, named by their template: the one of
  \<^verbatim>\<open>_create_get_profiles_message\<close> and the one of \<^verbatim>\<open>_create_get_stream_uri_message\<close>
  with its profile token.\<close>

datatype soap_message = GetProfilesMessage | GetStreamUriMessage string

text \<open>\<^verbatim>\<open>HTTPDigestAuth(auth[0], auth[1]) if auth[2] == "Digest" else (auth[0], auth[1])\<close>\<close>

definition auth_handler_of :: "string \<times> string \<times> string \<Rightarrow> auth_handler" where
  "auth_handler_of auth =
     (case auth of (user, password, auth_type) \<Rightarrow>
        if auth_type = ''Digest'' then HTTPDigestAuth user password
        else BasicAuth user password)"

text \<open>
  What the code reaches outside itself, as functions of what it passes (within one call
  the same request gets the same outcome):
  \<^item> \<open>requests_get url auth headers\<close> and \<open>requests_post url auth data\<close>, the HTTP layer;
  \<^item> \<open>xpath_local_name n root\<close>, what
    \<^verbatim>\<open>root.findall(".//*[local-name()='n']")\<close> does (the code asks ElementTree for an
    XPath function; the library decides whether it answers or raises);
  \<^item> \<open>os_makedirs\<close>, \<open>open_write\<close> (opening the file and writing the bytes),
    \<open>subprocess_run\<close> (the return code of the command, or the exception of a command that
    cannot start), \<open>path_exists\<close> after the command, and \<open>now_stamp\<close>, the formatted
    \<^verbatim>\<open>datetime.now()\<close>.
\<close>

record env =
  requests_get :: "string \<Rightarrow> auth_handler \<Rightarrow> (string \<times> string) list \<Rightarrow> http_outcome"
  requests_post :: "string \<Rightarrow> auth_handler \<Rightarrow> soap_message \<Rightarrow> http_outcome"
  xpath_local_name :: "string \<Rightarrow> xml \<Rightarrow> py_error + xml list"
  os_makedirs :: "string \<Rightarrow> py_error + unit"
  open_write :: "string \<Rightarrow> byte list \<Rightarrow> py_error + unit"
  subprocess_run :: "string list \<Rightarrow> py_error + int"
  path_exists :: "string \<Rightarrow> bool"
  now_stamp :: string

text \<open>What a call does to the outside, in the order it does it. Logger output is not
  recorded. A sleep is recorded in units of half a second.\<close>

datatype event =
  Get string auth_handler "(string \<times> string) list"
  | Post string auth_handler soap_message
  | Sleep nat
  | MakeDirs string
  | WriteFile string "byte list"
  | Run "string list"

text \<open>\<^verbatim>\<open>response.headers.get(key, default)\<close>\<close>

definition headers_get :: "Response \<Rightarrow> string \<Rightarrow> string \<Rightarrow> string" where
  "headers_get r k d = (case map_of (headers r) (lower k) of None \<Rightarrow> d | Some v \<Rightarrow> v)"

text \<open>\<^verbatim>\<open>int(s)\<close> on a string: surrounding whitespace is dropped, a sign may follow, then
  decimal digits with single underscores between them; anything else raises
  \<open>ValueError\<close>.\<close>

definition int_space :: "char \<Rightarrow> bool" where
  "int_space c = ((of_char c :: nat) \<in> {9, 10, 11, 12, 13, 32, 133, 160})"

fun digits_ok :: "string \<Rightarrow> bool" where
  "digits_ok [] = False"
| "digits_ok [c] = is_digit c"
| "digits_ok (c # d # r) =
     (is_digit c \<and>
      (if d = CHR ''_'' then (case r of [] \<Rightarrow> False | e # _ \<Rightarrow> is_digit e \<and> digits_ok r)
       else digits_ok (d # r)))"

definition py_int :: "string \<Rightarrow> py_error + int" where
  "py_int s =
     (let t = rev (dropWhile int_space (rev (dropWhile int_space s)));
          (neg, body) =
             (case t of
                [] \<Rightarrow> (False, t)
              | c # b \<Rightarrow> if c = CHR ''-'' then (True, b) else if c = CHR ''+'' then (False, b)
                         else (False, t))
      in if digits_ok body
         then Inr ((if neg then - 1 else 1) * int_of_digits (filter (\<lambda>c. c \<noteq> CHR ''_'') body))
         else Inl ValueError)"


section \<open>snapshot.py: the direct-fetch prober\<close>

text \<open>The device, as far as this code reads it (\<^verbatim>\<open>name\<close> is \<open>dname\<close> here).\<close>

record ONVIFDevice =
  address :: string
  dname :: string
  urls :: "string list"
  valid_credentials :: "(string \<times> string \<times> string) list"

text \<open>\<^verbatim>\<open>ONVIFSnapshot._try_snapshot_url\<close>, after the request: lines 188 to 202. Every
  exception, of the request or of \<^verbatim>\<open>int\<close>, ends in \<^verbatim>\<open>return False\<close>.\<close>

definition snapshot_response_ok :: "http_outcome \<Rightarrow> bool" where
  "snapshot_response_ok out =
     (case out of
        Raised e \<Rightarrow> False
      | Responded response \<Rightarrow>
          if status_code response = 200
          then (let content_type = headers_get response ''content-type'' ''''
                in case py_int (headers_get response ''content-length'' ''0'') of
                     Inl e \<Rightarrow> False
                   | Inr content_length \<Rightarrow>
                       if startswith content_type ''image/'' \<and> content_length > 1000
                       then True else False)
          else False)"

definition try_snapshot_url ::
  "env \<Rightarrow> string \<Rightarrow> string \<times> string \<times> string \<Rightarrow> (string \<times> string) list
     \<Rightarrow> bool \<times> event list" where
  "try_snapshot_url e url auth hdrs =
     (let auth_handler = auth_handler_of auth
      in (snapshot_response_ok (requests_get e url auth_handler hdrs),
          [Get url auth_handler hdrs]))"

text \<open>The header set of \<^verbatim>\<open>_try_device_urls\<close>.\<close>

definition probe_headers :: "(string \<times> string) list" where
  "probe_headers =
     [(''Accept'', ''image/jpeg,image/*''), (''User-Agent'', ''ONVIF Client/1.0''),
      (''Connection'', ''keep-alive'')]"

text \<open>The candidate URL \<^verbatim>\<open>f"{parsed.scheme}://{device_host}:{port}{path}"\<close>.\<close>

definition probe_url :: "ParseResult \<Rightarrow> string option \<Rightarrow> int option \<Rightarrow> string \<Rightarrow> string" where
  "probe_url parsed device_host prt pth =
     scheme parsed @ ''://'' @ fmt_str device_host @ '':'' @ fmt_int prt @ pth"

text \<open>The inner loop over the paths and the outer loop over the ports of
  \<^verbatim>\<open>_try_device_urls\<close>. A port is \<open>None\<close> when the device URL names none.\<close>

fun paths_loop ::
  "env \<Rightarrow> string \<times> string \<times> string \<Rightarrow> ParseResult \<Rightarrow> string option \<Rightarrow> int option
     \<Rightarrow> string list \<Rightarrow> string option \<times> event list" where
  "paths_loop e auth parsed device_host prt [] = (None, [])"
| "paths_loop e auth parsed device_host prt (pth # rest) =
     (let url = probe_url parsed device_host prt pth
      in case try_snapshot_url e url auth probe_headers of
           (hit, evs) \<Rightarrow>
             if hit then (Some url, evs)
             else (case paths_loop e auth parsed device_host prt rest of
                     (r, evs') \<Rightarrow> (r, evs @ evs')))"

fun ports_loop ::
  "env \<Rightarrow> string \<times> string \<times> string \<Rightarrow> ParseResult \<Rightarrow> string option \<Rightarrow> string list
     \<Rightarrow> int option list \<Rightarrow> string option \<times> event list" where
  "ports_loop e auth parsed device_host pths [] = (None, [])"
| "ports_loop e auth parsed device_host pths (prt # rest) =
     (case paths_loop e auth parsed device_host prt pths of
        (Some url, evs) \<Rightarrow> (Some url, evs)
      | (None, evs) \<Rightarrow>
          (case ports_loop e auth parsed device_host pths rest of
             (r, evs') \<Rightarrow> (r, evs @ evs')))"

text \<open>\<^verbatim>\<open>ONVIFSnapshot._try_device_urls\<close>. \<^verbatim>\<open>device.urls[0]\<close> raises
  \<open>IndexError\<close> on a device without URL; \<^verbatim>\<open>urlparse\<close> and \<^verbatim>\<open>parsed.port\<close> can raise
  \<open>ValueError\<close>. Nothing here catches them.\<close>

definition probe_ports :: "int option \<Rightarrow> DeviceContext \<Rightarrow> int option list" where
  "probe_ports device_port ctx =
     [device_port] @ map Some (filter (\<lambda>p. Some p \<noteq> device_port) (ports ctx))"

definition try_device_urls ::
  "env \<Rightarrow> ONVIFDevice \<Rightarrow> DeviceContext \<Rightarrow> string \<times> string \<times> string
     \<Rightarrow> (py_error + string option) \<times> event list" where
  "try_device_urls e device ctx auth =
     (case urls device of
        [] \<Rightarrow> (Inl IndexError, [])
      | url0 # _ \<Rightarrow>
          (case urlparse url0 of
             Inl err \<Rightarrow> (Inl err, [])
           | Inr parsed \<Rightarrow>
               (let device_host = hostname parsed
                in case port parsed of
                     Inl err \<Rightarrow> (Inl err, [])
                   | Inr device_port \<Rightarrow>
                       (case get_all_paths ctx of
                          Inl err \<Rightarrow> (Inl err, [])
                        | Inr pths \<Rightarrow>
                            (case ports_loop e auth parsed device_host pths
                                    (probe_ports device_port ctx) of
                               (r, evs) \<Rightarrow> (Inr r, evs))))))"

section \<open>snapshot/base.py: the hardened prober\<close>

text \<open>
  What the module-level name \<^verbatim>\<open>time\<close> refers to. Line 2 of the file is
  \<^verbatim>\<open>from datetime import time\<close>, so in this module it is the class
  \<^verbatim>\<open>datetime.time\<close>, which has neither an attribute \<^verbatim>\<open>time\<close> nor \<^verbatim>\<open>sleep\<close>:
  \<^verbatim>\<open>time.time()\<close> and \<^verbatim>\<open>time.sleep(...)\<close> raise \<open>AttributeError\<close>. The other value,
  the module \<^verbatim>\<open>time\<close>, is what \<^verbatim>\<open>import time\<close> would bind; the loop is written once
  for both, and \<open>base_time\<close> is the binding of the source.
\<close>

datatype time_name = DatetimeTime | TimeModule

definition base_time :: time_name where
  "base_time = DatetimeTime"

text \<open>\<^verbatim>\<open>int(time.time())\<close>, where \<open>now\<close> is what the clock reads, and
  \<^verbatim>\<open>time.sleep(...)\<close>.\<close>

definition time_time :: "time_name \<Rightarrow> int \<Rightarrow> py_error + int" where
  "time_time tm now = (case tm of DatetimeTime \<Rightarrow> Inl AttributeError | TimeModule \<Rightarrow> Inr now)"

definition time_sleep :: "time_name \<Rightarrow> py_error + unit" where
  "time_sleep tm = (case tm of DatetimeTime \<Rightarrow> Inl AttributeError | TimeModule \<Rightarrow> Inr ())"

text \<open>The session of the hardened prober: \<open>session_get k\<close> is the outcome of the GET
  that attempt \<open>k\<close> sends, and \<open>clock k\<close> the seconds the clock reads then.\<close>

record session_env =
  session_get :: "nat \<Rightarrow> string \<Rightarrow> auth_handler \<Rightarrow> (string \<times> string) list \<Rightarrow> http_outcome"
  clock :: "nat \<Rightarrow> int"

text \<open>\<^verbatim>\<open>ONVIFSnapshotBase._is_valid_image\<close>: the JPEG and the PNG header.\<close>

definition is_valid_image :: "byte list \<Rightarrow> bool" where
  "is_valid_image data =
     (if startswith data [0xFF, 0xD8, 0xFF] then True
      else if startswith data [0x89, 0x50, 0x4E, 0x47, 0x0D, 0x0A, 0x1A, 0x0A] then True
      else False)"

text \<open>How one pass through the body of the retry loop ends.\<close>

datatype step = Returned "byte list" | Broke | Next | Threw py_error

text \<open>
  The body of the loop of \<^verbatim>\<open>ONVIFSnapshotBase._try_snapshot_url\<close> for one
  \<open>attempt\<close>. The two \<^verbatim>\<open>except\<close> clauses catch \<open>Timeout\<close> and
  \<open>RequestException\<close> only (the loop goes on, without the sleep); any other exception
  leaves the function.
\<close>

definition base_attempt ::
  "time_name \<Rightarrow> session_env \<Rightarrow> int \<Rightarrow> string \<Rightarrow> auth_handler \<Rightarrow> (string \<times> string) list
     \<Rightarrow> nat \<Rightarrow> step \<times> event list" where
  "base_attempt tm se max_retries url auth_handler hdrs attempt =
     (case time_time tm (clock se attempt) of
        Inl err \<Rightarrow> (Threw err, [])
      | Inr t \<Rightarrow>
          (let cache_buster = ''nocache='' @ str_int t;
               url_with_cache_buster =
                 url @ (if CHR ''?'' \<in> set url then ''&'' else ''?'') @ cache_buster;
               evs = [Get url_with_cache_buster auth_handler hdrs]
           in case session_get se attempt url_with_cache_buster auth_handler hdrs of
                Raised err \<Rightarrow>
                  if err = Timeout \<or> err = RequestException then (Next, evs)
                  else (Threw err, evs)
              | Responded response \<Rightarrow>
                  (let backoff =
                         (if int attempt < max_retries - 1
                          then (case time_sleep tm of
                                  Inl err \<Rightarrow> (Threw err, evs)
                                | Inr _ \<Rightarrow> (Next, evs @ [Sleep (attempt + 1)]))
                          else (Next, evs))
                   in if status_code response = 200
                      then (let content_type = lower (headers_get response ''content-type'' '''')
                            in if str_in ''image/'' content_type
                               then (if is_valid_image (content response)
                                     then (Returned (content response), evs)
                                     else backoff)
                               else backoff)
                      else if status_code response = 401 then (Broke, evs)
                      else backoff)))"

text \<open>The loop \<^verbatim>\<open>for attempt in range(self.max_retries)\<close> and the
  \<^verbatim>\<open>return None\<close> after it.\<close>

fun base_loop ::
  "time_name \<Rightarrow> session_env \<Rightarrow> int \<Rightarrow> string \<Rightarrow> auth_handler \<Rightarrow> (string \<times> string) list
     \<Rightarrow> nat list \<Rightarrow> (py_error + byte list option) \<times> event list" where
  "base_loop tm se max_retries url auth_handler hdrs [] = (Inr None, [])"
| "base_loop tm se max_retries url auth_handler hdrs (attempt # rest) =
     (case base_attempt tm se max_retries url auth_handler hdrs attempt of
        (Returned c, evs) \<Rightarrow> (Inr (Some c), evs)
      | (Broke, evs) \<Rightarrow> (Inr None, evs)
      | (Threw err, evs) \<Rightarrow> (Inl err, evs)
      | (Next, evs) \<Rightarrow>
          (case base_loop tm se max_retries url auth_handler hdrs rest of
             (r, evs') \<Rightarrow> (r, evs @ evs')))"

definition try_snapshot_url_with ::
  "time_name \<Rightarrow> session_env \<Rightarrow> int \<Rightarrow> string \<Rightarrow> string \<times> string \<times> string
     \<Rightarrow> (string \<times> string) list \<Rightarrow> (py_error + byte list option) \<times> event list" where
  "try_snapshot_url_with tm se max_retries url auth hdrs =
     base_loop tm se max_retries url (auth_handler_of auth) hdrs [0..<nat max_retries]"

text \<open>\<^verbatim>\<open>ONVIFSnapshotBase._try_snapshot_url\<close>, with the \<^verbatim>\<open>time\<close> of the module.\<close>

definition base_try_snapshot_url ::
  "session_env \<Rightarrow> int \<Rightarrow> string \<Rightarrow> string \<times> string \<times> string
     \<Rightarrow> (string \<times> string) list \<Rightarrow> (py_error + byte list option) \<times> event list" where
  "base_try_snapshot_url se max_retries url auth hdrs =
     try_snapshot_url_with base_time se max_retries url auth hdrs"


section \<open>Media profiles and the stream URI\<close>

text \<open>\<^verbatim>\<open>elem.get(key, default)\<close> on the attributes of an element.\<close>

definition attrib_get :: "xml \<Rightarrow> string \<Rightarrow> string \<Rightarrow> string" where
  "attrib_get el k d = (case map_of (attrib el) k of None \<Rightarrow> d | Some v \<Rightarrow> v)"

text \<open>The elements below \<open>root\<close> in document order, without \<open>root\<close> itself: what
  \<^verbatim>\<open>.//\<close> ranges over.\<close>

fun descendants :: "xml \<Rightarrow> xml list" where
  "descendants (Element t a x cs) = concat (map (\<lambda>c. c # descendants c) cs)"

text \<open>\<^verbatim>\<open>root.findall(".//prefix:local", namespaces)\<close>: a prefix that the map does not
  hold raises \<open>SyntaxError\<close>.\<close>

definition findall_prefixed ::
  "(string \<times> string) list \<Rightarrow> string \<Rightarrow> string \<Rightarrow> xml \<Rightarrow> py_error + xml list" where
  "findall_prefixed namespaces pfx local root =
     (case map_of namespaces pfx of
        None \<Rightarrow> Inl SyntaxError
      | Some uri \<Rightarrow> Inr (filter (\<lambda>el. tag el = ''{'' @ uri @ ''}'' @ local) (descendants root)))"

definition soap_namespaces :: "(string \<times> string) list" where
  "soap_namespaces =
     [(''s'', ''http://www.w3.org/2003/05/soap-envelope''),
      (''trt'', ''http://www.onvif.org/ver10/media/wsdl''),
      (''tt'', ''http://www.onvif.org/ver10/schema''),
      (''tr2'', ''http://www.onvif.org/ver20/media/wsdl'')]"

text \<open>The four lookups joined by \<^verbatim>\<open>or\<close>: the first that gives a non-empty list
  wins, and a lookup that raises ends the expression.\<close>

definition profile_elements ::
  "env \<Rightarrow> (string \<times> string) list \<Rightarrow> xml \<Rightarrow> py_error + xml list" where
  "profile_elements e namespaces root =
     (case findall_prefixed namespaces ''trt'' ''Profiles'' root of
        Inl err \<Rightarrow> Inl err
      | Inr a \<Rightarrow>
          if a \<noteq> [] then Inr a
          else (case findall_prefixed namespaces ''tt'' ''Profiles'' root of
                  Inl err \<Rightarrow> Inl err
                | Inr b \<Rightarrow>
                    if b \<noteq> [] then Inr b
                    else (case xpath_local_name e ''Profiles'' root of
                            Inl err \<Rightarrow> Inl err
                          | Inr c \<Rightarrow>
                              if c \<noteq> [] then Inr c
                              else xpath_local_name e ''Profile'' root)))"

text \<open>The dict \<^verbatim>\<open>{"token": ..., "name": ...}\<close> (\<^verbatim>\<open>name\<close> is \<open>profile_name\<close>
  here).\<close>

record MediaProfile =
  token :: string
  profile_name :: string

text \<open>The loop over the profile elements: an element is appended when its token is
  not empty.\<close>

fun collect_profiles :: "xml list \<Rightarrow> MediaProfile list" where
  "collect_profiles [] = []"
| "collect_profiles (profile # rest) =
     (let profile_info = \<lparr>token = attrib_get profile ''token'' '''',
                            profile_name = attrib_get profile ''name'' ''''\<rparr>
      in if token profile_info \<noteq> [] then profile_info # collect_profiles rest
         else collect_profiles rest)"

text \<open>\<^verbatim>\<open>MediaProfileHandler.get_media_profiles\<close>: an exception of the lookups is
  caught and the list, still empty, is returned.\<close>

definition get_media_profiles ::
  "env \<Rightarrow> (string \<times> string) list \<Rightarrow> xml \<Rightarrow> MediaProfile list" where
  "get_media_profiles e namespaces soap_response =
     (case profile_elements e namespaces soap_response of
        Inl err \<Rightarrow> []
      | Inr els \<Rightarrow> collect_profiles els)"

text \<open>The URL \<^verbatim>\<open>f"{parsed.scheme}://{parsed.hostname}:{parsed.port}{service_path}"\<close>.\<close>

definition media_url_of :: "ParseResult \<Rightarrow> int option \<Rightarrow> string \<Rightarrow> string" where
  "media_url_of parsed prt service_path =
     scheme parsed @ ''://'' @ fmt_str (hostname parsed) @ '':'' @ fmt_int prt @ service_path"

text \<open>
  \<^verbatim>\<open>ONVIFSnapshot._get_media_profiles\<close>. \<open>endpoint_profiles\<close> is the inner
  \<^verbatim>\<open>try\<close> for one endpoint (lines 67 to 109): the profiles found there, and the empty list
  when the request raises, the status is not 200, the body does not parse or a lookup
  raises (the inner \<^verbatim>\<open>except\<close> goes on to the next endpoint).
\<close>

definition endpoint_profiles ::
  "env \<Rightarrow> string \<Rightarrow> string \<times> string \<times> string \<Rightarrow> MediaProfile list \<times> event list" where
  "endpoint_profiles e media_url auth =
     (let auth_handler = auth_handler_of auth;
          evs = [Post media_url auth_handler GetProfilesMessage]
      in case requests_post e media_url auth_handler GetProfilesMessage of
           Raised err \<Rightarrow> ([], evs)
         | Responded response \<Rightarrow>
             if status_code response = 200
             then (case text_xml response of
                     Inl err \<Rightarrow> ([], evs)
                   | Inr root \<Rightarrow>
                       (case profile_elements e soap_namespaces root of
                          Inl err \<Rightarrow> ([], evs)
                        | Inr els \<Rightarrow> (collect_profiles els, evs)))
             else ([], evs))"

text \<open>The loop over \<^verbatim>\<open>context.media_services\<close>. \<^verbatim>\<open>parsed.port\<close> is read when the
  URL is built, outside the inner \<^verbatim>\<open>try\<close>: its \<open>ValueError\<close> leaves the loop.\<close>

fun media_profiles_loop ::
  "env \<Rightarrow> ParseResult \<Rightarrow> string \<times> string \<times> string \<Rightarrow> string list
     \<Rightarrow> (py_error + MediaProfile list) \<times> event list" where
  "media_profiles_loop e parsed auth [] = (Inr [], [])"
| "media_profiles_loop e parsed auth (service_path # rest) =
     (case port parsed of
        Inl err \<Rightarrow> (Inl err, [])
      | Inr prt \<Rightarrow>
          (case endpoint_profiles e (media_url_of parsed prt service_path) auth of
             (profiles, evs) \<Rightarrow>
               if profiles \<noteq> [] then (Inr profiles, evs)
               else (case media_profiles_loop e parsed auth rest of
                       (r, evs') \<Rightarrow> (r, evs @ evs'))))"

text \<open>The body of the outer \<^verbatim>\<open>try\<close>, and the function with its outer
  \<^verbatim>\<open>except\<close>, which returns the empty list.\<close>

definition media_profiles_body ::
  "env \<Rightarrow> ONVIFDevice \<Rightarrow> string \<times> string \<times> string
     \<Rightarrow> (py_error + MediaProfile list) \<times> event list" where
  "media_profiles_body e device auth =
     (case get_context (dname device) of
        Inl err \<Rightarrow> (Inl err, [])
      | Inr ctx \<Rightarrow>
          (case urls device of
             [] \<Rightarrow> (Inl IndexError, [])
           | url0 # _ \<Rightarrow>
               (case urlparse url0 of
                  Inl err \<Rightarrow> (Inl err, [])
                | Inr parsed \<Rightarrow> media_profiles_loop e parsed auth (media_services ctx))))"

definition snapshot_get_media_profiles ::
  "env \<Rightarrow> ONVIFDevice \<Rightarrow> string \<times> string \<times> string \<Rightarrow> MediaProfile list \<times> event list" where
  "snapshot_get_media_profiles e device auth =
     (case media_profiles_body e device auth of
        (Inl err, evs) \<Rightarrow> ([], evs)
      | (Inr profiles, evs) \<Rightarrow> (profiles, evs))"

text \<open>\<^verbatim>\<open>ONVIFSnapshot._get_rtsp_stream_url\<close>, built the same way: the inner
  \<^verbatim>\<open>try\<close> for one endpoint, the loop, the outer \<^verbatim>\<open>try\<close>.\<close>

definition endpoint_stream_url ::
  "env \<Rightarrow> ParseResult \<Rightarrow> string \<Rightarrow> string \<times> string \<times> string \<Rightarrow> string
     \<Rightarrow> string option \<times> event list" where
  "endpoint_stream_url e parsed media_url auth profile_token =
     (let auth_handler = auth_handler_of auth;
          evs = [Post media_url auth_handler (GetStreamUriMessage profile_token)]
      in case requests_post e media_url auth_handler (GetStreamUriMessage profile_token) of
           Raised err \<Rightarrow> (None, evs)
         | Responded response \<Rightarrow>
             if status_code response = 200
             then (case text_xml response of
                     Inl err \<Rightarrow> (None, evs)
                   | Inr root \<Rightarrow>
                       (case xpath_local_name e ''Uri'' root of
                          Inl err \<Rightarrow> (None, evs)
                        | Inr [] \<Rightarrow> (None, evs)
                        | Inr (uri_element # _) \<Rightarrow>
                            (case elem_text uri_element of
                               None \<Rightarrow> (None, evs)
                             | Some rtsp_url \<Rightarrow>
                                 if rtsp_url = [] then (None, evs)
                                 else if \<not> startswith rtsp_url ''rtsp://''
                                 then (Some (''rtsp://'' @ fmt_str (hostname parsed) @ '':''
                                             @ str_int 554 @ rtsp_url), evs)
                                 else (Some rtsp_url, evs))))
             else (None, evs))"

fun stream_url_loop ::
  "env \<Rightarrow> ParseResult \<Rightarrow> string \<times> string \<times> string \<Rightarrow> string \<Rightarrow> string list
     \<Rightarrow> (py_error + string option) \<times> event list" where
  "stream_url_loop e parsed auth profile_token [] = (Inr None, [])"
| "stream_url_loop e parsed auth profile_token (service_path # rest) =
     (case port parsed of
        Inl err \<Rightarrow> (Inl err, [])
      | Inr prt \<Rightarrow>
          (case endpoint_stream_url e parsed (media_url_of parsed prt service_path) auth
                  profile_token of
             (Some rtsp_url, evs) \<Rightarrow> (Inr (Some rtsp_url), evs)
           | (None, evs) \<Rightarrow>
               (case stream_url_loop e parsed auth profile_token rest of
                  (r, evs') \<Rightarrow> (r, evs @ evs'))))"

definition get_rtsp_stream_url ::
  "env \<Rightarrow> ONVIFDevice \<Rightarrow> string \<times> string \<times> string \<Rightarrow> string
     \<Rightarrow> string option \<times> event list" where
  "get_rtsp_stream_url e device auth profile_token =
     (case get_context (dname device) of
        Inl err \<Rightarrow> (None, [])
      | Inr ctx \<Rightarrow>
          (case urls device of
             [] \<Rightarrow> (None, [])
           | url0 # _ \<Rightarrow>
               (case urlparse url0 of
                  Inl err \<Rightarrow> (None, [])
                | Inr parsed \<Rightarrow>
                    (case stream_url_loop e parsed auth profile_token (media_services ctx) of
                       (Inl err, evs) \<Rightarrow> (None, evs)
                     | (Inr r, evs) \<Rightarrow> (r, evs)))))"


section \<open>snapshot.py: the acquisition entry point\<close>

text \<open>\<^verbatim>\<open>s.replace(old, new)\<close>: every occurrence, from the left, without overlap; an
  empty \<open>old\<close> matches before every character and at the end.\<close>

function str_replace :: "string \<Rightarrow> string \<Rightarrow> string \<Rightarrow> string" where
  "str_replace old new s =
     (if old = [] then new @ concat (map (\<lambda>c. c # new) s)
      else if s = [] then []
      else if startswith s old then new @ str_replace old new (drop (length old) s)
      else hd s # str_replace old new (tl s))"
  by pat_completeness auto
termination
  by (relation "measure (\<lambda>(old, new, s). length s)") auto

declare str_replace.simps [simp del]

text \<open>\<^verbatim>\<open>os.path.join(a, b)\<close> on a POSIX system.\<close>

definition path_join :: "string \<Rightarrow> string \<Rightarrow> string" where
  "path_join a b =
     (if startswith b ''/'' then b
      else if a = [] \<or> last a = CHR ''/'' then a @ b
      else a @ ''/'' @ b)"

text \<open>\<^verbatim>\<open>ONVIFSnapshot._capture_rtsp_frame\<close>: every exception ends in
  \<^verbatim>\<open>return None\<close>.\<close>

definition capture_rtsp_frame ::
  "env \<Rightarrow> string \<Rightarrow> string \<times> string \<times> string \<Rightarrow> string \<Rightarrow> string option \<times> event list" where
  "capture_rtsp_frame e rtsp_url auth output_path =
     (case urlparse rtsp_url of
        Inl err \<Rightarrow> (None, [])
      | Inr parsed \<Rightarrow>
          (case auth of (user, password, auth_type) \<Rightarrow>
             (let rtsp_url_with_auth =
                    str_replace (scheme parsed @ ''://'' @ fmt_str (hostname parsed))
                      (scheme parsed @ ''://'' @ user @ '':'' @ password @ ''@''
                       @ fmt_str (hostname parsed))
                      rtsp_url;
                  cmd = [''ffmpeg'', ''-y'', ''-rtsp_transport'', ''tcp'', ''-i'',
                         rtsp_url_with_auth, ''-frames:v'', ''1'', ''-q:v'', ''2'', ''-f'',
                         ''image2'', output_path]
              in case subprocess_run e cmd of
                   Inl err \<Rightarrow> (None, [Run cmd])
                 | Inr returncode \<Rightarrow>
                     if returncode = 0 \<and> path_exists e output_path
                     then (Some output_path, [Run cmd])
                     else (None, [Run cmd]))))"

text \<open>Method 1 after the probing, the block under \<^verbatim>\<open>if snapshot_url:\<close>: the image
  is fetched again and written. \<open>Inr None\<close> means that the code goes on to method 2.\<close>

definition fetch_snapshot ::
  "env \<Rightarrow> string \<times> string \<times> string \<Rightarrow> string \<Rightarrow> string
     \<Rightarrow> (py_error + string option) \<times> event list" where
  "fetch_snapshot e cred snapshot_url output_path =
     (let auth_handler = auth_handler_of cred;
          hdrs = [(''Accept'', ''image/jpeg,image/*'')];
          evs = [Get snapshot_url auth_handler hdrs]
      in case requests_get e snapshot_url auth_handler hdrs of
           Raised err \<Rightarrow> (Inl err, evs)
         | Responded response \<Rightarrow>
             if status_code response = 200
                \<and> startswith (headers_get response ''content-type'' '''') ''image/''
             then (case open_write e output_path (content response) of
                     Inl err \<Rightarrow> (Inl err, evs @ [WriteFile output_path (content response)])
                   | Inr _ \<Rightarrow>
                       (Inr (Some output_path),
                        evs @ [WriteFile output_path (content response)]))
             else (Inr None, evs))"

text \<open>Method 2, the loop over the media profiles.\<close>

fun rtsp_loop ::
  "env \<Rightarrow> ONVIFDevice \<Rightarrow> string \<times> string \<times> string \<Rightarrow> string \<Rightarrow> MediaProfile list
     \<Rightarrow> string option \<times> event list" where
  "rtsp_loop e device cred output_path [] = (None, [])"
| "rtsp_loop e device cred output_path (profile # rest) =
     (case get_rtsp_stream_url e device cred (token profile) of
        (rtsp_url, evs) \<Rightarrow>
          (case (case rtsp_url of
                   None \<Rightarrow> (None, [])
                 | Some u \<Rightarrow>
                     if u = [] then (None, [])
                     else capture_rtsp_frame e u cred output_path) of
             (result, evs2) \<Rightarrow>
               if result \<noteq> None \<and> result \<noteq> Some []
               then (result, evs @ evs2)
               else (case rtsp_loop e device cred output_path rest of
                       (r, evs3) \<Rightarrow> (r, evs @ evs2 @ evs3))))"

text \<open>The body of the \<^verbatim>\<open>try\<close> of \<^verbatim>\<open>capture_snapshot\<close>.\<close>

definition capture_body ::
  "env \<Rightarrow> ONVIFDevice \<Rightarrow> string \<times> string \<times> string \<Rightarrow> string
     \<Rightarrow> (py_error + string option) \<times> event list" where
  "capture_body e device cred output_path =
     (case get_context (dname device) of
        Inl err \<Rightarrow> (Inl err, [])
      | Inr ctx \<Rightarrow>
          (case try_device_urls e device ctx cred of
             (Inl err, evs) \<Rightarrow> (Inl err, evs)
           | (Inr snapshot_url, evs) \<Rightarrow>
               (case (case snapshot_url of
                        None \<Rightarrow> (Inr None, [])
                      | Some u \<Rightarrow>
                          if u = [] then (Inr None, [])
                          else fetch_snapshot e cred u output_path) of
                  (Inl err, evs1) \<Rightarrow> (Inl err, evs @ evs1)
                | (Inr (Some saved), evs1) \<Rightarrow> (Inr (Some saved), evs @ evs1)
                | (Inr None, evs1) \<Rightarrow>
                    (case snapshot_get_media_profiles e device cred of
                       (profiles, evs2) \<Rightarrow>
                         (case rtsp_loop e device cred output_path profiles of
                            (r, evs3) \<Rightarrow> (Inr r, evs @ evs1 @ evs2 @ evs3))))))"

text \<open>
  \<^verbatim>\<open>ONVIFSnapshot.capture_snapshot\<close>. The test of the credentials comes first;
  \<^verbatim>\<open>os.makedirs\<close> is outside the \<^verbatim>\<open>try\<close>, so its exception leaves the function; every
  exception of the body is caught and gives \<^verbatim>\<open>None\<close>.
\<close>

definition capture_snapshot ::
  "env \<Rightarrow> ONVIFDevice \<Rightarrow> string \<Rightarrow> (py_error + string option) \<times> event list" where
  "capture_snapshot e device output_dir =
     (case valid_credentials device of
        [] \<Rightarrow> (Inr None, [])
      | cred # _ \<Rightarrow>
          (case os_makedirs e output_dir of
             Inl err \<Rightarrow> (Inl err, [MakeDirs output_dir])
           | Inr _ \<Rightarrow>
               (let output_path =
                      path_join output_dir
                        (''snapshot_'' @ address device @ ''_'' @ now_stamp e @ ''.jpg'')
                in case capture_body e device cred output_path of
                     (Inl err, evs) \<Rightarrow> (Inr None, MakeDirs output_dir # evs)
                   | (Inr r, evs) \<Rightarrow> (Inr r, MakeDirs output_dir # evs))))"

text \<open>The spec's words for the expanded path list, "duplicates removed keeping first
  occurrence, in original order": the entries of \<open>xs\<close> that occur neither in
  \<open>seen\<close> nor earlier in \<open>xs\<close>, in the order of \<open>xs\<close>.\<close>

definition first_occurrences :: "'a set \<Rightarrow> 'a list \<Rightarrow> 'a list" where
  "first_occurrences seen xs =
     concat (map (\<lambda>i. if xs ! i \<in> seen \<union> set (take i xs) then [] else [xs ! i]) [0..<length xs])"

text \<open>For the probing loops, "tried in order until the first hit": the entries of
  \<open>xs\<close> up to and including the first that satisfies \<open>P\<close>, and all of \<open>xs\<close> when
  none does.\<close>

fun tried_until :: "('a \<Rightarrow> bool) \<Rightarrow> 'a list \<Rightarrow> 'a list" where
  "tried_until P [] = []"
| "tried_until P (x # xs) = (if P x then [x] else x # tried_until P xs)"

text \<open>Names for stating what the prober does: whether the probe of a URL is a hit, and
  the request it sends.\<close>

definition probe_hit :: "env \<Rightarrow> string \<times> string \<times> string \<Rightarrow> string \<Rightarrow> bool" where
  "probe_hit e auth url = fst (try_snapshot_url e url auth probe_headers)"

definition probe_event :: "string \<times> string \<times> string \<Rightarrow> string \<Rightarrow> event" where
  "probe_event auth url = Get url (auth_handler_of auth) probe_headers"


section \<open>Fixtures: a mocked HTTP layer\<close>

text \<open>Responses and environments for the concrete runs below: a JPEG answer, a
  404, and a world in which one URL serves the JPEG and everything else fails.\<close>

definition jpeg_bytes :: "byte list" where
  "jpeg_bytes = [0xFF, 0xD8, 0xFF, 0xE0, 0x00, 0x10, 0x4A, 0x46, 0x49, 0x46]"

definition jpeg_response :: Response where
  "jpeg_response = \<lparr>status_code = 200,
     headers = [(''content-type'', ''image/jpeg''), (''content-length'', ''5000'')],
     content = jpeg_bytes, text_xml = Inl ParseError\<rparr>"

definition not_found :: Response where
  "not_found = \<lparr>status_code = 404,
     headers = [(''content-type'', ''text/html''), (''content-length'', ''0'')],
     content = [], text_xml = Inl ParseError\<rparr>"

definition mock_env :: "string list \<Rightarrow> env" where
  "mock_env jpeg_urls = \<lparr>
     requests_get = (\<lambda>url auth hdrs.
        if url \<in> set jpeg_urls then Responded jpeg_response else Responded not_found),
     requests_post = (\<lambda>url auth data. Responded not_found),
     xpath_local_name = (\<lambda>n root. Inl SyntaxError),
     os_makedirs = (\<lambda>d. Inr ()),
     open_write = (\<lambda>f bs. Inr ()),
     subprocess_run = (\<lambda>cmd. Inr 1),
     path_exists = (\<lambda>f. False),
     now_stamp = ''20240101_120000''\<rparr>"

definition hik_device :: ONVIFDevice where
  "hik_device = \<lparr>address = ''cam1'', dname = ''Hikvision-X'',
     urls = [''http://cam1:8000/onvif/device_service''],
     valid_credentials = [(''admin'', ''pw'', ''Digest'')]\<rparr>"

definition hik_parsed :: ParseResult where
  "hik_parsed = \<lparr>scheme = ''http'', netloc = ''cam1:8000'', path = ''/onvif/device_service'',
             params = [], query = [], fragment = []\<rparr>"

text \<open>Sessions for the hardened prober: one that answers every request with the
  same response, at a clock that stands at 1700000000.\<close>

definition constant_session :: "Response \<Rightarrow> session_env" where
  "constant_session r = \<lparr>session_get = (\<lambda>k url auth hdrs. Responded r),
                           clock = (\<lambda>k. 1700000000)\<rparr>"

definition unauthorized :: Response where
  "unauthorized = \<lparr>status_code = 401, headers = [(''content-type'', ''text/html'')],
     content = [], text_xml = Inl ParseError\<rparr>"

definition server_error :: Response where
  "server_error = \<lparr>status_code = 500, headers = [(''content-type'', ''text/html'')],
     content = [], text_xml = Inl ParseError\<rparr>"

definition html_page :: Response where
  "html_page = \<lparr>status_code = 200,
     headers = [(''content-type'', ''text/html''), (''content-length'', ''5000'')],
     content = [0x3C, 0x68, 0x74, 0x6D, 0x6C, 0x3E], text_xml = Inl ParseError\<rparr>"

definition octet_jpeg :: Response where
  "octet_jpeg = \<lparr>status_code = 200,
     headers = [(''content-type'', ''application/octet-stream''), (''content-length'', ''5000'')],
     content = jpeg_bytes, text_xml = Inl ParseError\<rparr>"

text \<open>A SOAP answer with three profile elements, one with a token, one with an empty
  token and one without, and a world in which the first media endpoint of a TP-Link device
  times out and the second gives that answer. \<open>etree_local_name\<close> is what ElementTree
  does with the \<^verbatim>\<open>local-name()\<close> predicate: it raises \<open>SyntaxError\<close>.\<close>

definition profiles_xml :: xml where
  "profiles_xml =
     Element ''{http://www.w3.org/2003/05/soap-envelope}Envelope'' [] None
       [Element ''{http://www.w3.org/2003/05/soap-envelope}Body'' [] None
          [Element ''{http://www.onvif.org/ver10/media/wsdl}GetProfilesResponse'' [] None
             [Element ''{http://www.onvif.org/ver10/media/wsdl}Profiles''
                [(''token'', ''Profile_1''), (''fixed'', ''true'')] None
                [Element ''{http://www.onvif.org/ver10/schema}Name'' [] (Some ''mainStream'') []],
              Element ''{http://www.onvif.org/ver10/media/wsdl}Profiles''
                [(''token'', '''')] None [],
              Element ''{http://www.onvif.org/ver10/media/wsdl}Profiles'' [] None []]]]"

definition profiles_response :: Response where
  "profiles_response = \<lparr>status_code = 200,
     headers = [(''content-type'', ''application/soap+xml'')],
     content = [], text_xml = Inr profiles_xml\<rparr>"

definition etree_local_name :: "string \<Rightarrow> xml \<Rightarrow> py_error + xml list" where
  "etree_local_name n root = Inl SyntaxError"

definition soap_env :: env where
  "soap_env = \<lparr>
     requests_get = (\<lambda>url auth hdrs. Responded not_found),
     requests_post = (\<lambda>url auth data.
        if url = ''http://cam2:2020/onvif/media_service'' then Raised Timeout
        else if url = ''http://cam2:2020/onvif/device_service'' then Responded profiles_response
        else Responded not_found),
     xpath_local_name = etree_local_name,
     os_makedirs = (\<lambda>d. Inr ()),
     open_write = (\<lambda>f bs. Inr ()),
     subprocess_run = (\<lambda>cmd. Inr 1),
     path_exists = (\<lambda>f. False),
     now_stamp = ''20240101_120000''\<rparr>"

definition tplink_device :: ONVIFDevice where
  "tplink_device = \<lparr>address = ''cam2'', dname = ''TP-Link Tapo C200'',
     urls = [''http://cam2:2020/onvif/device_service''],
     valid_credentials = [(''admin'', ''pw'', ''Digest'')]\<rparr>"

definition tplink_parsed :: ParseResult where
  "tplink_parsed = \<lparr>scheme = ''http'', netloc = ''cam2:2020'', path = ''/onvif/device_service'',
             params = [], query = [], fragment = []\<rparr>"

definition no_cred_device :: ONVIFDevice where
  "no_cred_device = \<lparr>address = ''cam1'', dname = ''Hikvision-X'',
     urls = [''http://cam1:8000/onvif/device_service''],
     valid_credentials = []\<rparr>"

text \<open>A device whose address names no port, as in
  \<^verbatim>\<open>http://cam1/onvif/device_service\<close>: it listens on the default port 80.\<close>

definition portless_device :: ONVIFDevice where
  "portless_device = \<lparr>address = ''cam1'', dname = ''Hikvision-X'',
     urls = [''http://cam1/onvif/device_service''],
     valid_credentials = [(''admin'', ''pw'', ''Digest'')]\<rparr>"

definition portless_parsed :: ParseResult where
  "portless_parsed = \<lparr>scheme = ''http'', netloc = ''cam1'', path = ''/onvif/device_service'',
             params = [], query = [], fragment = []\<rparr>"

section \<open>Facts about the string operations\<close>

lemma startswith_iff: "startswith s p \<longleftrightarrow> (\<exists>ss. s = p @ ss)"
  by (induction s p rule: startswith.induct) auto

lemma str_in_iff: "str_in needle hay \<longleftrightarrow> (\<exists>ps ss. hay = ps @ needle @ ss)"
proof (induction hay)
  case Nil
  then show ?case by auto
next
  case (Cons c s)
  show ?case
  proof
    assume "str_in needle (c # s)"
    then consider "startswith (c # s) needle" | "str_in needle s" by auto
    then show "\<exists>ps ss. c # s = ps @ needle @ ss"
    proof cases
      case 1
      then obtain ss where "c # s = needle @ ss" by (auto simp: startswith_iff)
      then have "c # s = [] @ needle @ ss" by simp
      then show ?thesis by blast
    next
      case 2
      then obtain ps ss where "s = ps @ needle @ ss" using Cons.IH by blast
      then have "c # s = (c # ps) @ needle @ ss" by simp
      then show ?thesis by blast
    qed
  next
    assume "\<exists>ps ss. c # s = ps @ needle @ ss"
    then obtain ps ss where e: "c # s = ps @ needle @ ss" by blast
    show "str_in needle (c # s)"
    proof (cases ps)
      case Nil
      then have "startswith (c # s) needle" using e by (auto simp: startswith_iff)
      then show ?thesis by simp
    next
      case (Cons p ps')
      then have "s = ps' @ needle @ ss" using e by simp
      then have "str_in needle s" using Cons.IH by blast
      then show ?thesis by simp
    qed
  qed
qed

lemma lower_append: "lower (a @ b) = lower a @ lower b"
  by (simp add: lower_def)

text \<open>Containing a keyword in any casing and at any position is what the two
  \<^verbatim>\<open>lower()\<close> calls and \<^verbatim>\<open>in\<close> decide.\<close>

lemma str_in_lower_iff:
  "str_in (lower kw) (lower nm) \<longleftrightarrow> (\<exists>ps mid ss. nm = ps @ mid @ ss \<and> lower mid = lower kw)"
proof
  assume "str_in (lower kw) (lower nm)"
  then obtain ps ss where "map lower_char nm = ps @ map lower_char kw @ ss"
    by (auto simp: str_in_iff lower_def)
  then obtain a r where a: "nm = a @ r" "ps = map lower_char a"
      "map lower_char kw @ ss = map lower_char r"
    by (auto simp: map_eq_append_conv)
  from a(3) obtain m b where "r = m @ b" "map lower_char kw = map lower_char m"
    by (auto simp: append_eq_map_conv)
  with a(1) have "nm = a @ m @ b \<and> lower m = lower kw" by (simp add: lower_def)
  then show "\<exists>ps mid ss. nm = ps @ mid @ ss \<and> lower mid = lower kw" by blast
next
  assume "\<exists>ps mid ss. nm = ps @ mid @ ss \<and> lower mid = lower kw"
  then obtain ps mid ss where "nm = ps @ mid @ ss" "lower mid = lower kw" by blast
  then have "lower nm = lower ps @ lower kw @ lower ss" by (simp add: lower_append)
  then show "str_in (lower kw) (lower nm)" unfolding str_in_iff by blast
qed


section \<open>Facts about \<open>dict.fromkeys\<close>\<close>

lemma concat_map_upt_Cons:
  "concat (map f [0..<length (x # xs)]) = f 0 @ concat (map (\<lambda>i. f (Suc i)) [0..<length xs])"
proof -
  have "[0..<length (x # xs)] = 0 # map Suc [0..<length xs]"
    by (simp add: upt_conv_Cons map_Suc_upt del: upt_Suc)
  then show ?thesis by (simp add: comp_def del: upt_Suc)
qed


lemma first_occurrences_Nil: "first_occurrences seen [] = []"
  by (simp add: first_occurrences_def)

lemma first_occurrences_Cons:
  "first_occurrences seen (x # xs) =
     (if x \<in> seen then [] else [x]) @ first_occurrences (insert x seen) xs"
  unfolding first_occurrences_def concat_map_upt_Cons by (simp cong: if_cong)

lemma fromkeys_loop_eq:
  "fromkeys_loop ks xs = ks @ first_occurrences (set ks) xs"
proof (induction xs arbitrary: ks)
  case Nil then show ?case by (simp add: first_occurrences_Nil)
next
  case (Cons x xs)
  then show ?case by (simp add: first_occurrences_Cons insert_absorb)
qed

lemma first_occurrences_filter:
  "first_occurrences (A \<union> B) xs = filter (\<lambda>x. x \<notin> A) (first_occurrences B xs)"
proof (induction xs arbitrary: B)
  case Nil then show ?case by (simp add: first_occurrences_Nil)
next
  case (Cons x xs)
  have "insert x (A \<union> B) = A \<union> insert x B" by auto
  then show ?case using Cons[of "insert x B"] by (simp add: first_occurrences_Cons)
qed

lemma fromkeys_loop_filter:
  "fromkeys_loop ks xs = ks @ filter (\<lambda>x. x \<notin> set ks) (fromkeys_loop [] xs)"
  using first_occurrences_filter[of "set ks" "{}" xs] by (simp add: fromkeys_loop_eq[of ks] fromkeys_loop_eq[of "[]"])

lemma fromkeys_loop_distinct: "distinct ks \<Longrightarrow> distinct (fromkeys_loop ks xs)"
  by (induction xs arbitrary: ks) auto

lemma fromkeys_loop_set: "set (fromkeys_loop ks xs) = set ks \<union> set xs"
  by (induction xs arbitrary: ks) auto

lemma fromkeys_loop_append: "fromkeys_loop ks (xs @ ys) = fromkeys_loop (fromkeys_loop ks xs) ys"
  by (induction xs arbitrary: ks) auto

lemma dict_fromkeys_append:
  "dict_fromkeys (xs @ ys) = dict_fromkeys xs @ filter (\<lambda>y. y \<notin> set xs) (dict_fromkeys ys)"
  unfolding dict_fromkeys_def fromkeys_loop_append
  by (subst fromkeys_loop_filter) (simp add: fromkeys_loop_set)

lemma first_occurrences_distinct_id:
  "distinct xs \<Longrightarrow> set xs \<inter> seen = {} \<Longrightarrow> first_occurrences seen xs = xs"
  by (induction xs arbitrary: seen) (auto simp: first_occurrences_Nil first_occurrences_Cons)

lemma dict_fromkeys_distinct_id: "distinct xs \<Longrightarrow> dict_fromkeys xs = xs"
  by (simp add: dict_fromkeys_def fromkeys_loop_eq first_occurrences_distinct_id)


section \<open>The matcher and the expanded path list\<close>

lemma dict_get_generic: "dict_get DEVICE_CONTEXTS ''generic'' = Inr generic"
  by (simp add: dict_get_def DEVICE_CONTEXTS_def)

lemma matches_iff:
  "matches ctx device_name \<longleftrightarrow>
     (\<exists>kw \<in> set (keywords_list ctx). \<exists>ps mid ss. device_name = ps @ mid @ ss \<and> lower mid = lower kw)"
  by (simp add: matches_def list_ex_iff str_in_lower_iff)

lemma not_matches_generic: "\<not> matches generic device_name"
  by (simp add: matches_def generic_def)

lemma matches_nonempty:
  "matches ctx device_name \<Longrightarrow> ctx \<in> snd ` set DEVICE_CONTEXTS \<Longrightarrow> device_name \<noteq> []"
  by (auto simp: matches_iff DEVICE_CONTEXTS_def tp_link_def cp_plus_def hikvision_def dahua_def generic_def lower_def)

lemma get_context_first:
  assumes "i < length DEVICE_CONTEXTS" "matches (snd (DEVICE_CONTEXTS ! i)) device_name"
  shows "\<exists>j\<le>i. get_context device_name = Inr (snd (DEVICE_CONTEXTS ! j))
            \<and> matches (snd (DEVICE_CONTEXTS ! j)) device_name
            \<and> (\<forall>k<j. \<not> matches (snd (DEVICE_CONTEXTS ! k)) device_name)"
proof -
  let ?cs = "map snd DEVICE_CONTEXTS"
  let ?P = "\<lambda>ctx. matches ctx device_name"
  have ne: "device_name \<noteq> []"
    using assms matches_nonempty[of "snd (DEVICE_CONTEXTS ! i)" device_name] by auto
  have "?cs ! i \<in> set ?cs" using assms(1) by (intro nth_mem) simp
  moreover have "?P (?cs ! i)" using assms by simp
  ultimately have "find ?P ?cs \<noteq> None" unfolding find_None_iff by blast
  then obtain c where c: "find ?P ?cs = Some c" by blast
  then obtain j where j: "j < length ?cs" "?P (?cs ! j)" "c = ?cs ! j" "\<forall>k<j. \<not> ?P (?cs ! k)"
    unfolding find_Some_iff by blast
  have "j \<le> i"
  proof (rule ccontr)
    assume "\<not> j \<le> i"
    then have "i < j" by simp
    with j(4) have "\<not> ?P (?cs ! i)" by blast
    with assms show False by simp
  qed
  moreover have "get_context device_name = Inr (snd (DEVICE_CONTEXTS ! j))"
    using c j(1,3) ne by (simp add: get_context_def)
  moreover have "\<forall>k<j. \<not> matches (snd (DEVICE_CONTEXTS ! k)) device_name"
    using j(1,4) by auto
  ultimately show ?thesis using j(1,2) by auto
qed

lemma get_context_no_match:
  assumes "device_name = [] \<or> (\<forall>c \<in> snd ` set DEVICE_CONTEXTS. \<not> matches c device_name)"
  shows "get_context device_name = Inr generic"
proof (cases "device_name = []")
  case True
  then show ?thesis by (simp add: get_context_def dict_get_generic)
next
  case False
  with assms have "\<forall>c \<in> set (map snd DEVICE_CONTEXTS). \<not> matches c device_name" by simp
  then have "find (\<lambda>ctx. matches ctx device_name) (map snd DEVICE_CONTEXTS) = None"
    unfolding find_None_iff by blast
  then show ?thesis using False by (simp add: get_context_def dict_get_generic)
qed

lemma get_context_total: "\<exists>c. get_context device_name = Inr c"
  by (simp add: get_context_def dict_get_generic split: option.split)

text \<open>
  Claim C3. A device name that contains a keyword of some catalog profile, in any casing
  and at any position, makes \<^verbatim>\<open>get_context\<close> return the first profile in catalog
  order that matches the name, and that profile is not the generic one; an empty name, or a
  name that no profile matches, gives the generic profile; and \<^verbatim>\<open>get_context\<close> always
  returns a profile (the lookup of the key \<^verbatim>\<open>generic\<close> never raises).
\<close>

theorem get_context_match:
  "(\<forall>i kw. i < length DEVICE_CONTEXTS
        \<and> kw \<in> set (keywords_list (snd (DEVICE_CONTEXTS ! i)))
        \<and> (\<exists>ps mid ss. device_name = ps @ mid @ ss \<and> lower mid = lower kw)
      \<longrightarrow> (\<exists>j\<le>i. get_context device_name = Inr (snd (DEVICE_CONTEXTS ! j))
              \<and> matches (snd (DEVICE_CONTEXTS ! j)) device_name
              \<and> (\<forall>k<j. \<not> matches (snd (DEVICE_CONTEXTS ! k)) device_name)
              \<and> snd (DEVICE_CONTEXTS ! j) \<noteq> generic))
   \<and> (device_name = [] \<or> (\<forall>c \<in> snd ` set DEVICE_CONTEXTS. \<not> matches c device_name)
      \<longrightarrow> get_context device_name = Inr generic)
   \<and> (\<exists>c. get_context device_name = Inr c)"
proof (intro conjI allI impI)
  fix i kw
  assume h: "i < length DEVICE_CONTEXTS
        \<and> kw \<in> set (keywords_list (snd (DEVICE_CONTEXTS ! i)))
        \<and> (\<exists>ps mid ss. device_name = ps @ mid @ ss \<and> lower mid = lower kw)"
  then have "matches (snd (DEVICE_CONTEXTS ! i)) device_name"
    unfolding matches_iff by blast
  with h obtain j where j: "j \<le> i" "get_context device_name = Inr (snd (DEVICE_CONTEXTS ! j))"
      "matches (snd (DEVICE_CONTEXTS ! j)) device_name"
      "\<forall>k<j. \<not> matches (snd (DEVICE_CONTEXTS ! k)) device_name"
    using get_context_first by blast
  from j(3) have "snd (DEVICE_CONTEXTS ! j) \<noteq> generic"
    using not_matches_generic by metis
  with j show "\<exists>j\<le>i. get_context device_name = Inr (snd (DEVICE_CONTEXTS ! j))
              \<and> matches (snd (DEVICE_CONTEXTS ! j)) device_name
              \<and> (\<forall>k<j. \<not> matches (snd (DEVICE_CONTEXTS ! k)) device_name)
              \<and> snd (DEVICE_CONTEXTS ! j) \<noteq> generic" by blast
next
  assume "device_name = [] \<or> (\<forall>c \<in> snd ` set DEVICE_CONTEXTS. \<not> matches c device_name)"
  then show "get_context device_name = Inr generic" by (rule get_context_no_match)
next
  show "\<exists>c. get_context device_name = Inr c" by (rule get_context_total)
qed


theorem get_context_match_witness:
  "(2 < length DEVICE_CONTEXTS
      \<and> ''hik'' \<in> set (keywords_list (snd (DEVICE_CONTEXTS ! 2)))
      \<and> ''IPC HIKVISION DS-2CD'' = ''IPC '' @ ''HIK'' @ ''VISION DS-2CD''
      \<and> lower ''HIK'' = lower ''hik'')
   \<and> get_context ''IPC HIKVISION DS-2CD'' = Inr hikvision
   \<and> get_context '''' = Inr generic
   \<and> list_all (\<lambda>(k, c). \<not> matches c ''AXIS P1448'') DEVICE_CONTEXTS
   \<and> get_context ''AXIS P1448'' = Inr generic"
proof -
  let ?n = "''IPC HIKVISION DS-2CD''"
  have len: "2 < length DEVICE_CONTEXTS" by (simp add: DEVICE_CONTEXTS_def)
  have kw: "''hik'' \<in> set (keywords_list (snd (DEVICE_CONTEXTS ! 2)))"
    by (simp add: DEVICE_CONTEXTS_def hikvision_def)
  have split: "?n = ''IPC '' @ ''HIK'' @ ''VISION DS-2CD''" by simp
  have low: "lower ''HIK'' = lower ''hik''" by code_simp
  have hyp: "2 < length DEVICE_CONTEXTS
        \<and> ''hik'' \<in> set (keywords_list (snd (DEVICE_CONTEXTS ! 2)))
        \<and> (\<exists>ps mid ss. ?n = ps @ mid @ ss \<and> lower mid = lower ''hik'')"
    using len kw split low by blast
  have nm: "\<not> matches (snd (DEVICE_CONTEXTS ! 0)) ?n" "\<not> matches (snd (DEVICE_CONTEXTS ! 1)) ?n"
    by code_simp+
  from get_context_match[of ?n] hyp
  obtain j where j: "j \<le> 2" "get_context ?n = Inr (snd (DEVICE_CONTEXTS ! j))"
      "matches (snd (DEVICE_CONTEXTS ! j)) ?n"
    by blast
  from j(1) have "j = 0 \<or> j = 1 \<or> j = 2" by auto
  with j(3) nm have "j = 2" by auto
  with j(2) have r1: "get_context ?n = Inr hikvision" by (simp add: DEVICE_CONTEXTS_def)
  have r2: "get_context '''' = Inr generic"
    using get_context_match[of "''''"] by blast
  have none: "list_all (\<lambda>(k, c). \<not> matches c ''AXIS P1448'') DEVICE_CONTEXTS" by code_simp
  then have "\<forall>c \<in> snd ` set DEVICE_CONTEXTS. \<not> matches c ''AXIS P1448''"
    by (auto simp: list_all_iff)
  then have r3: "get_context ''AXIS P1448'' = Inr generic"
    using get_context_match[of "''AXIS P1448''"] by blast
  show ?thesis using len kw split low r1 r2 none r3 by blast
qed

lemma lower_generic_name: "lower (name generic) = ''generic''"
  by code_simp

lemma distinct_generic_paths: "distinct (paths generic)"
  by (simp add: generic_def)

lemma vendor_names_not_generic:
  "list_all (\<lambda>(k, c). k = ''generic'' \<or> lower (name c) \<noteq> ''generic'') DEVICE_CONTEXTS"
  by code_simp

text \<open>
  Claim C4. For a profile whose name is not the generic one (the test the code makes),
  \<^verbatim>\<open>get_all_paths\<close> returns the profile's own paths followed by the generic paths,
  with duplicates removed keeping the first occurrence in the original order: that is the
  profile's own first occurrences followed by the generic paths not among the profile's,
  it has no duplicate and holds exactly the paths of both lists. For the generic
  profile it returns the generic paths unchanged. The four vendor profiles of the catalog
  have non-generic names (\<open>vendor_names_not_generic\<close>).
\<close>

theorem get_all_paths_expanded:
  "(lower (name ctx) \<noteq> ''generic'' \<longrightarrow>
      get_all_paths ctx = Inr (first_occurrences {} (paths ctx @ paths generic))
      \<and> first_occurrences {} (paths ctx @ paths generic)
          = first_occurrences {} (paths ctx) @ filter (\<lambda>p. p \<notin> set (paths ctx)) (paths generic)
      \<and> distinct (first_occurrences {} (paths ctx @ paths generic))
      \<and> set (first_occurrences {} (paths ctx @ paths generic)) = set (paths ctx) \<union> set (paths generic))
   \<and> get_all_paths generic = Inr (paths generic)"
proof (intro conjI impI)
  let ?xs = "paths ctx @ paths generic"
  have eq: "dict_fromkeys ?xs = first_occurrences {} ?xs"
    by (simp add: dict_fromkeys_def fromkeys_loop_eq)
  have eq': "dict_fromkeys xs = first_occurrences {} xs" for xs :: "string list"
    by (simp add: dict_fromkeys_def fromkeys_loop_eq)
  assume "lower (name ctx) \<noteq> ''generic''"
  then show "get_all_paths ctx = Inr (first_occurrences {} ?xs)"
    by (simp add: get_all_paths_def dict_get_generic eq)
  show "first_occurrences {} ?xs
          = first_occurrences {} (paths ctx) @ filter (\<lambda>p. p \<notin> set (paths ctx)) (paths generic)"
    using dict_fromkeys_append[of "paths ctx" "paths generic"]
    by (simp add: eq'[symmetric] dict_fromkeys_distinct_id distinct_generic_paths)
  show "distinct (first_occurrences {} ?xs)"
    using fromkeys_loop_distinct[of "[]" ?xs] by (simp add: eq'[symmetric] dict_fromkeys_def)
  show "set (first_occurrences {} ?xs) = set (paths ctx) \<union> set (paths generic)"
    using fromkeys_loop_set[of "[]" ?xs] by (simp add: eq'[symmetric] dict_fromkeys_def)
next
  show "get_all_paths generic = Inr (paths generic)"
    by (simp add: get_all_paths_def lower_generic_name dict_fromkeys_distinct_id distinct_generic_paths)
qed

theorem get_all_paths_expanded_witness:
  "lower (name hikvision) \<noteq> ''generic''
   \<and> get_all_paths hikvision = Inr
       [''/ISAPI/Streaming/channels/101/picture'',
        ''/ISAPI/Streaming/channels/1/picture'',
        ''/Streaming/channels/1/picture'',
        ''/onvif/snapshot'',
        ''/onvif-http/snapshot'',
        ''/onvif/camera/1/snapshot'',
        ''/snap.jpg'',
        ''/snapshot'',
        ''/image'',
        ''/image/jpeg.cgi'',
        ''/cgi-bin/snapshot.cgi'',
        ''/snapshot.jpg'',
        ''/jpeg'',
        ''/video.mjpg'',
        ''/cgi-bin/api.cgi?cmd=Snap&channel=1'']"
proof -
  have h: "lower (name hikvision) \<noteq> ''generic''" by code_simp
  with get_all_paths_expanded[of hikvision]
  have "get_all_paths hikvision
          = Inr (first_occurrences {} (paths hikvision) @ filter (\<lambda>p. p \<notin> set (paths hikvision)) (paths generic))"
    by simp
  moreover have "first_occurrences {} (paths hikvision) = paths hikvision"
    by (rule first_occurrences_distinct_id) (simp_all add: hikvision_def)
  ultimately show ?thesis using h by (simp add: hikvision_def generic_def)
qed


section \<open>Stream URL normalisation\<close>

lemma str_int_554: "str_int 554 = ''554''"
  by code_simp

lemma normalize_relative:
  "\<not> startswith url ''rtsp://'' \<Longrightarrow>
     normalize_rtsp_url url device_host
       = Inr (''rtsp://'' @ device_host @ '':554'' @ (if startswith url ''/'' then url else ''/'' @ url))"
  by (simp add: normalize_rtsp_url_def str_int_554)

lemma normalize_stream1_relative:
  "normalize_rtsp_url ''/stream1'' ''cam1'' = Inr ''rtsp://cam1:554/stream1''"
  by code_simp

lemma normalize_stream1_no_port:
  "normalize_rtsp_url ''rtsp://cam1/stream1'' device_host = Inr ''rtsp://cam1:554/stream1''"
  by code_simp

lemma normalize_stream1_port:
  "normalize_rtsp_url ''rtsp://cam1:8554/stream1'' device_host = Inr ''rtsp://cam1:8554/stream1''"
  by code_simp

text \<open>
  Claim C7. \<^verbatim>\<open>normalize_rtsp_url\<close> turns \<^verbatim>\<open>/stream1\<close> with host \<^verbatim>\<open>cam1\<close> into
  \<^verbatim>\<open>rtsp://cam1:554/stream1\<close>, gives \<^verbatim>\<open>rtsp://cam1/stream1\<close> the port 554, leaves
  \<^verbatim>\<open>rtsp://cam1:8554/stream1\<close> as it is, and puts a slash before every input that
  starts neither with \<^verbatim>\<open>rtsp://\<close> nor with a slash before joining it to the host and
  the port 554.
\<close>

theorem normalize_rtsp_url_cases:
  "normalize_rtsp_url ''/stream1'' ''cam1'' = Inr ''rtsp://cam1:554/stream1''
   \<and> normalize_rtsp_url ''rtsp://cam1/stream1'' device_host = Inr ''rtsp://cam1:554/stream1''
   \<and> normalize_rtsp_url ''rtsp://cam1:8554/stream1'' device_host = Inr ''rtsp://cam1:8554/stream1''
   \<and> (\<not> startswith url ''rtsp://'' \<and> \<not> startswith url ''/''
        \<longrightarrow> normalize_rtsp_url url device_host = Inr (''rtsp://'' @ device_host @ '':554'' @ ''/'' @ url))"
  using normalize_relative[of url device_host]
  by (simp add: normalize_stream1_relative normalize_stream1_no_port normalize_stream1_port)

theorem normalize_rtsp_url_cases_witness:
  "\<not> startswith ''stream1'' ''rtsp://'' \<and> \<not> startswith ''stream1'' ''/''
   \<and> normalize_rtsp_url ''stream1'' ''cam1'' = Inr ''rtsp://cam1:554/stream1''"
  using normalize_rtsp_url_cases[of "''cam1''" "''stream1''"] by simp


section \<open>The direct-fetch prober\<close>

lemma tried_until_none: "find P xs = None \<Longrightarrow> tried_until P xs = xs"
  by (induction xs) (auto split: if_splits)

lemma tried_until_some: "find P xs = Some y \<Longrightarrow> tried_until P xs = takeWhile (\<lambda>x. \<not> P x) xs @ [y]"
  by (induction xs) (auto split: if_splits)

lemma find_append_case:
  "find P (xs @ ys) = (case find P xs of Some x \<Rightarrow> Some x | None \<Rightarrow> find P ys)"
  by (induction xs) auto

lemma tried_until_append:
  "tried_until P (xs @ ys) = (if find P xs = None then xs @ tried_until P ys else tried_until P xs)"
  by (induction xs) auto

lemma paths_loop_eq:
  "paths_loop e auth parsed device_host prt pths =
     (find (probe_hit e auth) (map (probe_url parsed device_host prt) pths),
      map (probe_event auth) (tried_until (probe_hit e auth) (map (probe_url parsed device_host prt) pths)))"
  by (induction pths)
     (auto simp: probe_hit_def probe_url_def probe_event_def try_snapshot_url_def Let_def split: prod.splits)

lemma ports_loop_eq:
  "ports_loop e auth parsed device_host pths prts =
     (find (probe_hit e auth) (concat (map (\<lambda>prt. map (probe_url parsed device_host prt) pths) prts)),
      map (probe_event auth)
        (tried_until (probe_hit e auth) (concat (map (\<lambda>prt. map (probe_url parsed device_host prt) pths) prts))))"
proof (induction prts)
  case Nil
  then show ?case by simp
next
  case (Cons prt rest)
  show ?case
  proof (cases "find (probe_hit e auth) (map (probe_url parsed device_host prt) pths)")
    case None
    then show ?thesis
      by (simp add: paths_loop_eq Cons.IH find_append_case tried_until_append tried_until_none)
  next
    case (Some u)
    then show ?thesis
      by (simp add: paths_loop_eq find_append_case tried_until_append)
  qed
qed

lemma probe_ports_first: "hd (probe_ports device_port ctx) = device_port"
  by (simp add: probe_ports_def)

lemma probe_ports_once: "count_list (probe_ports device_port ctx) device_port = 1"
proof -
  have "count_list (map Some (filter (\<lambda>p. Some p \<noteq> device_port) ps)) device_port = 0" for ps
    by (induction ps) auto
  then show ?thesis by (simp add: probe_ports_def)
qed

lemma get_all_paths_total: "\<exists>pths. get_all_paths ctx = Inr pths"
  by (simp add: get_all_paths_def dict_get_def DEVICE_CONTEXTS_def)

text \<open>
  The order of the probing, for a device whose first URL parses. \<open>device_port\<close> is what
  \<^verbatim>\<open>parsed.port\<close> reads: the port the URL names, and \<^verbatim>\<open>None\<close> when it names none.
  The port list is that value followed by the profile's ports without it; the candidates are
  the (port, path) pairs with the ports outside and the paths inside; the result is the first
  candidate URL whose probe is a hit, and the requests sent are exactly the candidates up
  to that one, in order; when no candidate is a hit the result is \<^verbatim>\<open>None\<close> and every
  candidate has been requested.
\<close>

lemma try_device_urls_order:
  assumes "urls device = url0 # others" and "urlparse url0 = Inr parsed"
    and "port parsed = Inr device_port" and "get_all_paths ctx = Inr pths"
  shows "let prts = device_port # map Some (filter (\<lambda>p. Some p \<noteq> device_port) (ports ctx));
             cands = concat (map (\<lambda>prt. map (probe_url parsed (hostname parsed) prt) pths) prts)
         in hd prts = device_port \<and> count_list prts device_port = 1
          \<and> try_device_urls e device ctx auth
              = (Inr (find (probe_hit e auth) cands),
                 map (probe_event auth) (tried_until (probe_hit e auth) cands))
          \<and> (find (probe_hit e auth) cands = None \<longrightarrow> tried_until (probe_hit e auth) cands = cands)"
proof -
  have p: "probe_ports device_port ctx
             = device_port # map Some (filter (\<lambda>p. Some p \<noteq> device_port) (ports ctx))"
    by (simp add: probe_ports_def)
  have "try_device_urls e device ctx auth
          = (case ports_loop e auth parsed (hostname parsed) pths (probe_ports device_port ctx) of
               (r, evs) \<Rightarrow> (Inr r, evs))"
    using assms by (simp add: try_device_urls_def)
  then show ?thesis
    using probe_ports_first[of device_port ctx] probe_ports_once[of device_port ctx]
    by (simp add: ports_loop_eq p Let_def tried_until_none)
qed


lemma hik_urls: "urls hik_device = ''http://cam1:8000/onvif/device_service'' # []"
  by (simp add: hik_device_def)

lemma hik_parse: "urlparse ''http://cam1:8000/onvif/device_service'' = Inr hik_parsed"
  by code_simp

lemma hik_port: "port hik_parsed = Inr (Some 8000)"
  by code_simp

lemma hik_all_paths:
  "get_all_paths hikvision = Inr
       [''/ISAPI/Streaming/channels/101/picture'',
        ''/ISAPI/Streaming/channels/1/picture'',
        ''/Streaming/channels/1/picture'',
        ''/onvif/snapshot'',
        ''/onvif-http/snapshot'',
        ''/onvif/camera/1/snapshot'',
        ''/snap.jpg'',
        ''/snapshot'',
        ''/image'',
        ''/image/jpeg.cgi'',
        ''/cgi-bin/snapshot.cgi'',
        ''/snapshot.jpg'',
        ''/jpeg'',
        ''/video.mjpg'',
        ''/cgi-bin/api.cgi?cmd=Snap&channel=1'']"
  by code_simp

text \<open>A run with an explicit port: the device is at port 8000 and serves the image
  on port 80.\<close>

lemma try_device_urls_order_explicit_port:
  "urls hik_device = [''http://cam1:8000/onvif/device_service'']
   \<and> urlparse ''http://cam1:8000/onvif/device_service'' = Inr hik_parsed
   \<and> port hik_parsed = Inr (Some 8000)
   \<and> fst (try_device_urls (mock_env [''http://cam1:80/Streaming/channels/1/picture''])
             hik_device hikvision (''admin'', ''pw'', ''Digest''))
       = Inr (Some ''http://cam1:80/Streaming/channels/1/picture'')
   \<and> length (snd (try_device_urls (mock_env [''http://cam1:80/Streaming/channels/1/picture''])
             hik_device hikvision (''admin'', ''pw'', ''Digest''))) = 18
   \<and> fst (try_device_urls (mock_env []) hik_device hikvision (''admin'', ''pw'', ''Digest''))
       = Inr None
   \<and> length (snd (try_device_urls (mock_env []) hik_device hikvision
             (''admin'', ''pw'', ''Digest''))) = 45"
proof -
  let ?hit = "''http://cam1:80/Streaming/channels/1/picture''"
  let ?auth = "(''admin'', ''pw'', ''Digest'')"
  let ?cands = "concat (map (\<lambda>prt. map (probe_url hik_parsed (hostname hik_parsed) prt)
        [''/ISAPI/Streaming/channels/101/picture'',
        ''/ISAPI/Streaming/channels/1/picture'',
        ''/Streaming/channels/1/picture'',
        ''/onvif/snapshot'',
        ''/onvif-http/snapshot'',
        ''/onvif/camera/1/snapshot'',
        ''/snap.jpg'',
        ''/snapshot'',
        ''/image'',
        ''/image/jpeg.cgi'',
        ''/cgi-bin/snapshot.cgi'',
        ''/snapshot.jpg'',
        ''/jpeg'',
        ''/video.mjpg'',
        ''/cgi-bin/api.cgi?cmd=Snap&channel=1''])
      (Some 8000 # map Some (filter (\<lambda>p. Some p \<noteq> Some 8000) (ports hikvision))))"
  note t = try_device_urls_order[OF hik_urls hik_parse hik_port hik_all_paths, unfolded Let_def]
  have f1: "find (probe_hit (mock_env [?hit]) ?auth) ?cands = Some ?hit" by code_simp
  have l1: "length (tried_until (probe_hit (mock_env [?hit]) ?auth) ?cands) = 18" by code_simp
  have f2: "find (probe_hit (mock_env []) ?auth) ?cands = None" by code_simp
  have l2: "length ?cands = 45" by code_simp
  from t[of "mock_env [?hit]" ?auth] f1 l1
  have a: "fst (try_device_urls (mock_env [?hit]) hik_device hikvision ?auth) = Inr (Some ?hit)"
    "length (snd (try_device_urls (mock_env [?hit]) hik_device hikvision ?auth)) = 18"
    by simp_all
  from t[of "mock_env []" ?auth] f2 l2
  have b: "fst (try_device_urls (mock_env []) hik_device hikvision ?auth) = Inr None"
    "length (snd (try_device_urls (mock_env []) hik_device hikvision ?auth)) = 45"
    by simp_all
  show ?thesis using hik_urls hik_parse hik_port a b by simp
qed

text \<open>
  Claim C2 says that for every device the port list starts with the device's own port,
  which occurs once, followed by the profile's other ports. For a device whose URL names its
  port that is what the code does (\<open>try_device_urls_order\<close>, and the run on port 8000
  above). For a device whose URL names no port the code does not: \<^verbatim>\<open>parsed.port\<close> is
  \<^verbatim>\<open>None\<close>, no default is put in its place, and the port list of a Hikvision device at
  \<^verbatim>\<open>http://cam1/onvif/device_service\<close> is \<^verbatim>\<open>[None, 80, 8000, 554]\<close>. The first
  requests go to \<^verbatim>\<open>http://cam1:None/...\<close>, one for each of the fifteen paths; the
  device's own port 80 comes second, and the image it serves at the first path is found
  with the sixteenth request.
\<close>

theorem try_device_urls_portless:
  "urls portless_device = [''http://cam1/onvif/device_service'']
   \<and> urlparse ''http://cam1/onvif/device_service'' = Inr portless_parsed
   \<and> port portless_parsed = Inr None
   \<and> probe_ports None hikvision = [None, Some 80, Some 8000, Some 554]
   \<and> take 1 (snd (try_device_urls (mock_env [''http://cam1:80/ISAPI/Streaming/channels/101/picture''])
                     portless_device hikvision (''admin'', ''pw'', ''Digest'')))
       = [Get ''http://cam1:None/ISAPI/Streaming/channels/101/picture''
            (HTTPDigestAuth ''admin'' ''pw'') probe_headers]
   \<and> fst (try_device_urls (mock_env [''http://cam1:80/ISAPI/Streaming/channels/101/picture''])
             portless_device hikvision (''admin'', ''pw'', ''Digest''))
       = Inr (Some ''http://cam1:80/ISAPI/Streaming/channels/101/picture'')
   \<and> length (snd (try_device_urls (mock_env [''http://cam1:80/ISAPI/Streaming/channels/101/picture''])
                     portless_device hikvision (''admin'', ''pw'', ''Digest''))) = 16"
  by code_simp


section \<open>What counts as a hit\<close>

lemma legacy_only_image:
  "snapshot_response_ok out \<Longrightarrow>
     \<exists>r. out = Responded r \<and> status_code r = 200
         \<and> startswith (headers_get r ''content-type'' '''') ''image/''"
  by (auto simp: snapshot_response_ok_def Let_def split: http_outcome.splits if_splits sum.splits)

lemma base_attempt_returned:
  assumes "fst (base_attempt tm se max_retries url ah hdrs k) = Returned c"
  shows "\<exists>u r. session_get se k u ah hdrs = Responded r \<and> status_code r = 200
           \<and> str_in ''image/'' (lower (headers_get r ''content-type'' ''''))
           \<and> is_valid_image c \<and> content r = c"
  using assms
  by (auto simp: base_attempt_def Let_def split: sum.splits http_outcome.splits if_splits)

lemma base_loop_returned:
  "fst (base_loop tm se max_retries url ah hdrs ks) = Inr (Some c) \<Longrightarrow>
     \<exists>k \<in> set ks. fst (base_attempt tm se max_retries url ah hdrs k) = Returned c"
proof (induction ks)
  case Nil
  then show ?case by simp
next
  case (Cons k ks)
  obtain st evs where a: "base_attempt tm se max_retries url ah hdrs k = (st, evs)"
    by (cases "base_attempt tm se max_retries url ah hdrs k")
  show ?case
  proof (cases st)
    case (Returned c')
    with a Cons.prems show ?thesis by simp
  next
    case Broke
    with a Cons.prems show ?thesis by simp
  next
    case Next
    with a Cons.prems have "fst (base_loop tm se max_retries url ah hdrs ks) = Inr (Some c)"
      by (simp split: prod.splits)
    with Cons.IH show ?thesis by auto
  next
    case (Threw e)
    with a Cons.prems show ?thesis by simp
  qed
qed

lemma hardened_only_image:
  assumes "fst (try_snapshot_url_with tm se max_retries url auth hdrs) = Inr (Some c)"
  shows "\<exists>k u r. k < nat max_retries
           \<and> session_get se k u (auth_handler_of auth) hdrs = Responded r
           \<and> status_code r = 200
           \<and> str_in ''image/'' (lower (headers_get r ''content-type'' ''''))
           \<and> is_valid_image c \<and> content r = c"
proof -
  from assms obtain k where "k \<in> set [0..<nat max_retries]"
      "fst (base_attempt tm se max_retries url (auth_handler_of auth) hdrs k) = Returned c"
    unfolding try_snapshot_url_with_def using base_loop_returned by blast
  then show ?thesis using base_attempt_returned by fastforce
qed

lemma not_image_types:
  "\<not> startswith ''text/html'' ''image/''" "\<not> str_in ''image/'' (lower ''text/html'')"
  "\<not> startswith ''application/octet-stream'' ''image/''"
  "\<not> str_in ''image/'' (lower ''application/octet-stream'')"
  by code_simp+

text \<open>
  Claim C1. In both probers a response is a hit only if its content type names an image.
  The prober of \<^verbatim>\<open>snapshot.py\<close> accepts only a 200 response whose content type starts
  with \<^verbatim>\<open>image/\<close>; the prober of \<^verbatim>\<open>snapshot/base.py\<close>, whatever \<^verbatim>\<open>time\<close> is bound
  to, returns bytes only if some attempt got a 200 response whose lower-cased content type
  contains \<^verbatim>\<open>image/\<close> and whose body has an image signature (the content type is
  tested first). So a response with content type \<^verbatim>\<open>text/html\<close>, of any length, and a
  response with content type \<^verbatim>\<open>application/octet-stream\<close>, whatever its body starts
  with, is never a hit in either prober.
\<close>

theorem hit_only_if_image:
  "(snapshot_response_ok out \<longrightarrow>
      (\<exists>r. out = Responded r \<and> status_code r = 200
           \<and> startswith (headers_get r ''content-type'' '''') ''image/''))
   \<and> (fst (try_snapshot_url_with tm se max_retries url auth hdrs) = Inr (Some c) \<longrightarrow>
      (\<exists>k u r. k < nat max_retries
           \<and> session_get se k u (auth_handler_of auth) hdrs = Responded r
           \<and> status_code r = 200
           \<and> str_in ''image/'' (lower (headers_get r ''content-type'' ''''))
           \<and> is_valid_image c \<and> content r = c))
   \<and> (headers_get r ''content-type'' '''' = ''text/html''
        \<or> headers_get r ''content-type'' '''' = ''application/octet-stream''
      \<longrightarrow> \<not> snapshot_response_ok (Responded r))
   \<and> ((\<forall>k u r. session_get se k u (auth_handler_of auth) hdrs = Responded r
          \<longrightarrow> headers_get r ''content-type'' '''' = ''text/html''
              \<or> headers_get r ''content-type'' '''' = ''application/octet-stream'')
      \<longrightarrow> fst (try_snapshot_url_with tm se max_retries url auth hdrs) \<noteq> Inr (Some c))"
proof (intro conjI impI)
  assume "snapshot_response_ok out"
  then show "\<exists>r. out = Responded r \<and> status_code r = 200
           \<and> startswith (headers_get r ''content-type'' '''') ''image/''"
    by (rule legacy_only_image)
next
  assume "fst (try_snapshot_url_with tm se max_retries url auth hdrs) = Inr (Some c)"
  then show "\<exists>k u r. k < nat max_retries
           \<and> session_get se k u (auth_handler_of auth) hdrs = Responded r
           \<and> status_code r = 200
           \<and> str_in ''image/'' (lower (headers_get r ''content-type'' ''''))
           \<and> is_valid_image c \<and> content r = c"
    by (rule hardened_only_image)
next
  assume h: "headers_get r ''content-type'' '''' = ''text/html''
        \<or> headers_get r ''content-type'' '''' = ''application/octet-stream''"
  show "\<not> snapshot_response_ok (Responded r)"
  proof
    assume "snapshot_response_ok (Responded r)"
    then have "startswith (headers_get r ''content-type'' '''') ''image/''"
      using legacy_only_image by blast
    with h not_image_types(1,3) show False by auto
  qed
next
  assume h: "\<forall>k u r. session_get se k u (auth_handler_of auth) hdrs = Responded r
          \<longrightarrow> headers_get r ''content-type'' '''' = ''text/html''
              \<or> headers_get r ''content-type'' '''' = ''application/octet-stream''"
  show "fst (try_snapshot_url_with tm se max_retries url auth hdrs) \<noteq> Inr (Some c)"
  proof
    assume "fst (try_snapshot_url_with tm se max_retries url auth hdrs) = Inr (Some c)"
    then obtain k u r' where r': "session_get se k u (auth_handler_of auth) hdrs = Responded r'"
        "str_in ''image/'' (lower (headers_get r' ''content-type'' ''''))"
      using hardened_only_image by blast
    from h r'(1) have "headers_get r' ''content-type'' '''' = ''text/html''
              \<or> headers_get r' ''content-type'' '''' = ''application/octet-stream''" by blast
    with r'(2) not_image_types(2,4) show False by auto
  qed
qed


lemma fixture_types:
  "headers_get html_page ''content-type'' '''' = ''text/html''"
  "headers_get octet_jpeg ''content-type'' '''' = ''application/octet-stream''"
  "headers_get jpeg_response ''content-type'' '''' = ''image/jpeg''"
  by code_simp+

theorem hit_only_if_image_witness:
  "snapshot_response_ok (Responded jpeg_response)
   \<and> startswith (headers_get jpeg_response ''content-type'' '''') ''image/''
   \<and> fst (try_snapshot_url_with TimeModule (constant_session jpeg_response) 3
            ''http://cam1:80/snap.jpg'' (''admin'', ''pw'', ''Digest'') []) = Inr (Some jpeg_bytes)
   \<and> str_in ''image/'' (lower (headers_get jpeg_response ''content-type'' ''''))
   \<and> headers_get html_page ''content-type'' '''' = ''text/html''
   \<and> \<not> snapshot_response_ok (Responded html_page)
   \<and> headers_get octet_jpeg ''content-type'' '''' = ''application/octet-stream''
   \<and> startswith (content octet_jpeg) [0xFF, 0xD8, 0xFF]
   \<and> \<not> snapshot_response_ok (Responded octet_jpeg)
   \<and> fst (try_snapshot_url_with TimeModule (constant_session octet_jpeg) 3
            ''http://cam1:80/snap.jpg'' (''admin'', ''pw'', ''Digest'') []) \<noteq> Inr (Some jpeg_bytes)
   \<and> fst (base_try_snapshot_url (constant_session octet_jpeg) 3
            ''http://cam1:80/snap.jpg'' (''admin'', ''pw'', ''Digest'') []) \<noteq> Inr (Some jpeg_bytes)"
proof -
  let ?u = "''http://cam1:80/snap.jpg''"
  let ?a = "(''admin'', ''pw'', ''Digest'')"
  have ok: "snapshot_response_ok (Responded jpeg_response)" by code_simp
  with hit_only_if_image[where out = "Responded jpeg_response"]
  have c1: "startswith (headers_get jpeg_response ''content-type'' '''') ''image/''" by auto
  have hit: "fst (try_snapshot_url_with TimeModule (constant_session jpeg_response) 3 ?u ?a [])
               = Inr (Some jpeg_bytes)" by code_simp
  with hit_only_if_image[where tm = TimeModule and se = "constant_session jpeg_response"
      and max_retries = 3 and url = ?u and auth = ?a and hdrs = "[]" and c = jpeg_bytes]
  obtain k u r where "session_get (constant_session jpeg_response) k u (auth_handler_of ?a) [] = Responded r"
      "str_in ''image/'' (lower (headers_get r ''content-type'' ''''))"
    by blast
  then have c2: "str_in ''image/'' (lower (headers_get jpeg_response ''content-type'' ''''))"
    by (simp add: constant_session_def)
  have c3: "\<not> snapshot_response_ok (Responded html_page)"
    using hit_only_if_image[where r = html_page] fixture_types(1) by blast
  have c4: "\<not> snapshot_response_ok (Responded octet_jpeg)"
    using hit_only_if_image[where r = octet_jpeg] fixture_types(2) by blast
  have sig: "startswith (content octet_jpeg) [0xFF, 0xD8, 0xFF]"
    by (simp add: octet_jpeg_def jpeg_bytes_def)
  have all: "\<forall>k u r. session_get (constant_session octet_jpeg) k u (auth_handler_of ?a) [] = Responded r
          \<longrightarrow> headers_get r ''content-type'' '''' = ''text/html''
              \<or> headers_get r ''content-type'' '''' = ''application/octet-stream''"
    using fixture_types(2) by (simp add: constant_session_def)
  have c5: "fst (try_snapshot_url_with tm (constant_session octet_jpeg) 3 ?u ?a []) \<noteq> Inr (Some jpeg_bytes)"
    for tm
    using hit_only_if_image[where tm = tm and se = "constant_session octet_jpeg"
      and max_retries = 3 and url = ?u and auth = ?a and hdrs = "[]" and c = jpeg_bytes] all
    by blast
  show ?thesis
    using ok c1 hit c2 fixture_types(1,2) c3 c4 sig c5[of TimeModule] c5[of base_time]
    by (simp add: base_try_snapshot_url_def)
qed


section \<open>The retry loop of the hardened prober\<close>

lemma base_attempt_datetime:
  "base_attempt DatetimeTime se max_retries url ah hdrs k = (Threw AttributeError, [])"
  by (simp add: base_attempt_def time_time_def)

lemma base_raises:
  "0 < max_retries \<Longrightarrow>
     base_try_snapshot_url se max_retries url auth hdrs = (Inl AttributeError, [])"
proof -
  assume "0 < max_retries"
  then have "[0..<nat max_retries] = 0 # [Suc 0..<nat max_retries]"
    by (simp add: upt_conv_Cons)
  then show ?thesis
    by (simp add: base_try_snapshot_url_def try_snapshot_url_with_def base_time_def
        base_attempt_datetime)
qed

text \<open>
  Claim C6 says that every attempt of the hardened prober appends the cache-busting
  parameter to the URL and then completes, returning the bytes or \<^verbatim>\<open>None\<close>. The code
  does not: the parameter is computed with \<^verbatim>\<open>time.time()\<close>, and \<^verbatim>\<open>time\<close> is the class
  \<^verbatim>\<open>datetime.time\<close>. With the default of three retries the first attempt raises
  \<open>AttributeError\<close> before any request is sent, for every session, URL, credential and
  header set. (With \<^verbatim>\<open>time\<close> bound to the module, the loop does append the parameter,
  with \<^verbatim>\<open>&\<close> after a URL that has a question mark.)
\<close>

theorem base_try_snapshot_url_attribute_error:
  "base_try_snapshot_url se 3 url auth hdrs = (Inl AttributeError, [])
   \<and> try_snapshot_url_with TimeModule (constant_session jpeg_response) 3
       ''http://cam1:80/cgi-bin/snapshot.cgi?channel=1'' (''admin'', ''pw'', ''Basic'') []
     = (Inr (Some jpeg_bytes),
        [Get ''http://cam1:80/cgi-bin/snapshot.cgi?channel=1&nocache=1700000000''
           (BasicAuth ''admin'' ''pw'') []])"
proof
  show "base_try_snapshot_url se 3 url auth hdrs = (Inl AttributeError, [])"
    by (rule base_raises) simp
  show "try_snapshot_url_with TimeModule (constant_session jpeg_response) 3
       ''http://cam1:80/cgi-bin/snapshot.cgi?channel=1'' (''admin'', ''pw'', ''Basic'') []
     = (Inr (Some jpeg_bytes),
        [Get ''http://cam1:80/cgi-bin/snapshot.cgi?channel=1&nocache=1700000000''
           (BasicAuth ''admin'' ''pw'') []])"
    by code_simp
qed

text \<open>With \<^verbatim>\<open>time\<close> bound to the module, an attempt that gets a 401 ends the loop:
  \<^verbatim>\<open>None\<close> is returned and the later attempts send nothing.\<close>

lemma time_module_unauthorized:
  assumes "session_get se k
             (url @ (if CHR ''?'' \<in> set url then ''&'' else ''?'') @ ''nocache='' @ str_int (clock se k))
             ah hdrs = Responded r"
    and "status_code r = 401"
  shows "base_loop TimeModule se max_retries url ah hdrs (k # rest)
           = (Inr None,
              [Get (url @ (if CHR ''?'' \<in> set url then ''&'' else ''?'') @ ''nocache=''
                    @ str_int (clock se k)) ah hdrs])"
  using assms by (simp add: base_attempt_def time_time_def Let_def)

text \<open>
  Claim C5 says that a failed attempt is retried with a growing delay and that a 401
  ends the retries with \<^verbatim>\<open>None\<close>. On a device that answers every request with 401 the
  code raises \<open>AttributeError\<close> instead, having sent nothing (the same defect as for C6).
  With \<^verbatim>\<open>time\<close> bound to the module \<^verbatim>\<open>time\<close> the same loop does what the claim
  says: one request and \<^verbatim>\<open>None\<close> on a 401, and on a server error three requests with
  sleeps of one and two half-seconds between them.
\<close>

theorem base_unauthorized_attribute_error:
  "base_try_snapshot_url (constant_session unauthorized) 3 ''http://cam1:80/snap.jpg''
       (''admin'', ''pw'', ''Digest'') []
     = (Inl AttributeError, [])
   \<and> try_snapshot_url_with TimeModule (constant_session unauthorized) 3
       ''http://cam1:80/snap.jpg'' (''admin'', ''pw'', ''Digest'') []
     = (Inr None,
        [Get ''http://cam1:80/snap.jpg?nocache=1700000000'' (HTTPDigestAuth ''admin'' ''pw'') []])
   \<and> try_snapshot_url_with TimeModule (constant_session server_error) 3
       ''http://cam1:80/snap.jpg'' (''admin'', ''pw'', ''Digest'') []
     = (Inr None,
        [Get ''http://cam1:80/snap.jpg?nocache=1700000000'' (HTTPDigestAuth ''admin'' ''pw'') [],
         Sleep 1,
         Get ''http://cam1:80/snap.jpg?nocache=1700000000'' (HTTPDigestAuth ''admin'' ''pw'') [],
         Sleep 2,
         Get ''http://cam1:80/snap.jpg?nocache=1700000000'' (HTTPDigestAuth ''admin'' ''pw'') []])"
  by code_simp


section \<open>Media profile extraction\<close>

lemma collect_profiles_eq:
  "collect_profiles els =
     map (\<lambda>el. \<lparr>token = attrib_get el ''token'' '''', profile_name = attrib_get el ''name'' ''''\<rparr>)
       (filter (\<lambda>el. attrib_get el ''token'' '''' \<noteq> []) els)"
  by (induction els) (simp_all add: Let_def)

lemma collect_profiles_tokens: "list_all (\<lambda>p. token p \<noteq> []) (collect_profiles els)"
  by (induction els) (simp_all add: Let_def)

lemma endpoint_profiles_tokens: "list_all (\<lambda>p. token p \<noteq> []) (fst (endpoint_profiles e media_url auth))"
  by (simp add: endpoint_profiles_def Let_def collect_profiles_tokens
      split: http_outcome.splits sum.splits)

lemma endpoint_profiles_events:
  "snd (endpoint_profiles e media_url auth) = [Post media_url (auth_handler_of auth) GetProfilesMessage]"
  by (simp add: endpoint_profiles_def Let_def split: http_outcome.splits sum.splits)

lemma media_profiles_loop_eq:
  assumes "port parsed = Inr prt"
  shows "media_profiles_loop e parsed auth sps =
     (Inr (case find (\<lambda>u. fst (endpoint_profiles e u auth) \<noteq> []) (map (media_url_of parsed prt) sps) of
             None \<Rightarrow> []
           | Some u \<Rightarrow> fst (endpoint_profiles e u auth)),
      map (\<lambda>u. Post u (auth_handler_of auth) GetProfilesMessage)
        (tried_until (\<lambda>u. fst (endpoint_profiles e u auth) \<noteq> []) (map (media_url_of parsed prt) sps)))"
proof (induction sps)
  case Nil
  then show ?case by simp
next
  case (Cons sp rest)
  obtain ps evs where ep: "endpoint_profiles e (media_url_of parsed prt sp) auth = (ps, evs)"
    by (cases "endpoint_profiles e (media_url_of parsed prt sp) auth")
  with endpoint_profiles_events[of e "media_url_of parsed prt sp" auth]
  have evs: "evs = [Post (media_url_of parsed prt sp) (auth_handler_of auth) GetProfilesMessage]"
    by simp
  show ?case using assms ep evs Cons.IH by (simp split: prod.splits)
qed

lemma media_profiles_loop_tokens:
  "fst (media_profiles_loop e parsed auth sps) = Inr ps \<Longrightarrow> list_all (\<lambda>p. token p \<noteq> []) ps"
proof (induction sps)
  case Nil
  then show ?case by simp
next
  case (Cons sp rest)
  show ?case
  proof (cases "port parsed")
    case (Inl err)
    with Cons.prems show ?thesis by simp
  next
    case (Inr prt)
    show ?thesis
    proof (cases "fst (endpoint_profiles e (media_url_of parsed prt sp) auth) = []")
      case True
      with Inr Cons.prems have "fst (media_profiles_loop e parsed auth rest) = Inr ps"
        by (simp split: prod.splits)
      then show ?thesis by (rule Cons.IH)
    next
      case False
      with Inr Cons.prems have "ps = fst (endpoint_profiles e (media_url_of parsed prt sp) auth)"
        by (auto split: prod.splits)
      then show ?thesis by (simp add: endpoint_profiles_tokens)
    qed
  qed
qed

lemma snapshot_get_media_profiles_tokens:
  "list_all (\<lambda>p. token p \<noteq> []) (fst (snapshot_get_media_profiles e device auth))"
proof -
  obtain r evs where b: "media_profiles_body e device auth = (r, evs)"
    by (cases "media_profiles_body e device auth")
  show ?thesis
  proof (cases r)
    case (Inl err)
    with b show ?thesis by (simp add: snapshot_get_media_profiles_def)
  next
    case (Inr ps)
    with b have "\<exists>parsed sps. fst (media_profiles_loop e parsed auth sps) = Inr ps"
      by (auto simp: media_profiles_body_def split: sum.splits list.splits) (metis fst_conv)+
    then have "list_all (\<lambda>p. token p \<noteq> []) ps" using media_profiles_loop_tokens by blast
    with b Inr show ?thesis by (simp add: snapshot_get_media_profiles_def)
  qed
qed


text \<open>
  Claim C10. Every profile that the extraction returns has a non-empty token, in
  \<^verbatim>\<open>MediaProfileHandler.get_media_profiles\<close> and in
  \<^verbatim>\<open>ONVIFSnapshot._get_media_profiles\<close>: the loop keeps exactly the elements whose
  \<^verbatim>\<open>token\<close> attribute is present and not empty, in their order.
\<close>

theorem media_profiles_tokens:
  "list_all (\<lambda>p. token p \<noteq> []) (get_media_profiles e namespaces soap_response)
   \<and> list_all (\<lambda>p. token p \<noteq> []) (fst (snapshot_get_media_profiles e device auth))
   \<and> get_media_profiles e namespaces soap_response =
       (case profile_elements e namespaces soap_response of
          Inl err \<Rightarrow> []
        | Inr els \<Rightarrow>
            map (\<lambda>el. \<lparr>token = attrib_get el ''token'' '''',
                         profile_name = attrib_get el ''name'' ''''\<rparr>)
              (filter (\<lambda>el. attrib_get el ''token'' '''' \<noteq> []) els))"
proof (intro conjI)
  show "list_all (\<lambda>p. token p \<noteq> []) (get_media_profiles e namespaces soap_response)"
    by (simp add: get_media_profiles_def collect_profiles_tokens split: sum.splits)
  show "list_all (\<lambda>p. token p \<noteq> []) (fst (snapshot_get_media_profiles e device auth))"
    by (rule snapshot_get_media_profiles_tokens)
  show "get_media_profiles e namespaces soap_response =
       (case profile_elements e namespaces soap_response of
          Inl err \<Rightarrow> []
        | Inr els \<Rightarrow>
            map (\<lambda>el. \<lparr>token = attrib_get el ''token'' [],
                         profile_name = attrib_get el ''name'' []\<rparr>)
              (filter (\<lambda>el. attrib_get el ''token'' [] \<noteq> []) els))"
    by (simp add: get_media_profiles_def collect_profiles_eq split: sum.splits)
qed

theorem media_profiles_tokens_witness:
  "get_media_profiles soap_env soap_namespaces profiles_xml
     = [\<lparr>token = ''Profile_1'', profile_name = []\<rparr>]
   \<and> list_all (\<lambda>p. token p \<noteq> []) (get_media_profiles soap_env soap_namespaces profiles_xml)"
proof -
  have "get_media_profiles soap_env soap_namespaces profiles_xml
     = [\<lparr>token = ''Profile_1'', profile_name = []\<rparr>]" by code_simp
  then show ?thesis
    using media_profiles_tokens[of soap_env soap_namespaces profiles_xml] by simp
qed


lemma endpoint_profiles_swallows:
  "requests_post e media_url (auth_handler_of auth) GetProfilesMessage = Raised err
     \<Longrightarrow> fst (endpoint_profiles e media_url auth) = []"
  "requests_post e media_url (auth_handler_of auth) GetProfilesMessage = Responded r
     \<Longrightarrow> status_code r \<noteq> 200 \<or> (\<exists>err. text_xml r = Inl err)
          \<or> (\<exists>root err. text_xml r = Inr root \<and> profile_elements e soap_namespaces root = Inl err)
     \<Longrightarrow> fst (endpoint_profiles e media_url auth) = []"
  by (auto simp: endpoint_profiles_def Let_def)

lemma media_profiles_outer_error:
  assumes "urls device = [] \<or> (\<exists>err. urlparse (hd (urls device)) = Inl err)
           \<or> (\<exists>p err. urlparse (hd (urls device)) = Inr p \<and> port p = Inl err)"
  shows "snapshot_get_media_profiles e device auth = ([], [])"
proof -
  have l: "port p = Inl err \<Longrightarrow> media_profiles_loop e p auth sps = (Inr [], []) \<or>
            media_profiles_loop e p auth sps = (Inl err, [])" for p err sps
    by (cases sps) simp_all
  show ?thesis
  proof (cases "get_context (dname device)")
    case (Inl err)
    then show ?thesis by (simp add: snapshot_get_media_profiles_def media_profiles_body_def)
  next
    case (Inr ctx)
    show ?thesis
    proof (cases "urls device")
      case Nil
      with Inr show ?thesis by (simp add: snapshot_get_media_profiles_def media_profiles_body_def)
    next
      case (Cons url0 others)
      show ?thesis
      proof (cases "urlparse url0")
        case (Inl err)
        with Inr Cons show ?thesis
          by (simp add: snapshot_get_media_profiles_def media_profiles_body_def)
      next
        case pr: (Inr p)
        with assms Cons obtain err where "port p = Inl err" by auto
        from l[OF this, of "media_services ctx"] Inr Cons pr show ?thesis
          by (auto simp: snapshot_get_media_profiles_def media_profiles_body_def)
      qed
    qed
  qed
qed

text \<open>
  Claim C8. For a device whose first URL parses and whose port reads, the profile lookup
  posts to the media endpoints of the matched profile in order, returns the profiles of the
  first endpoint that yields at least one and posts to no endpoint after it; an endpoint
  whose request raises, whose status is not 200, whose body does not parse or whose lookup
  raises yields nothing and the next endpoint is tried; when no endpoint yields a profile the
  result is the empty list, and so it is when the device has no URL or its URL or port does
  not parse. The function returns a list in every case.
\<close>

theorem media_profiles_first_endpoint:
  "(get_context (dname device) = Inr ctx \<and> urls device = first_url # others
      \<and> urlparse first_url = Inr parsed \<and> port parsed = Inr prt \<longrightarrow>
      (let eps = map (media_url_of parsed prt) (media_services ctx);
           yields = (\<lambda>u. fst (endpoint_profiles e u auth))
       in snapshot_get_media_profiles e device auth
            = ((case find (\<lambda>u. yields u \<noteq> []) eps of None \<Rightarrow> [] | Some u \<Rightarrow> yields u),
               map (\<lambda>u. Post u (auth_handler_of auth) GetProfilesMessage)
                 (tried_until (\<lambda>u. yields u \<noteq> []) eps))))
   \<and> (requests_post e media_url (auth_handler_of auth) GetProfilesMessage = Raised err
        \<longrightarrow> fst (endpoint_profiles e media_url auth) = [])
   \<and> (requests_post e media_url (auth_handler_of auth) GetProfilesMessage = Responded r
        \<and> (status_code r \<noteq> 200 \<or> (\<exists>err. text_xml r = Inl err)
            \<or> (\<exists>root err. text_xml r = Inr root \<and> profile_elements e soap_namespaces root = Inl err))
        \<longrightarrow> fst (endpoint_profiles e media_url auth) = [])
   \<and> (urls device = [] \<or> (\<exists>err. urlparse (hd (urls device)) = Inl err)
        \<or> (\<exists>p err. urlparse (hd (urls device)) = Inr p \<and> port p = Inl err)
        \<longrightarrow> snapshot_get_media_profiles e device auth = ([], []))"
proof (intro conjI impI)
  assume h: "get_context (dname device) = Inr ctx \<and> urls device = first_url # others
      \<and> urlparse first_url = Inr parsed \<and> port parsed = Inr prt"
  then have "media_profiles_body e device auth = media_profiles_loop e parsed auth (media_services ctx)"
    by (simp add: media_profiles_body_def)
  with h show "let eps = map (media_url_of parsed prt) (media_services ctx);
           yields = (\<lambda>u. fst (endpoint_profiles e u auth))
       in snapshot_get_media_profiles e device auth
            = ((case find (\<lambda>u. yields u \<noteq> []) eps of None \<Rightarrow> [] | Some u \<Rightarrow> yields u),
               map (\<lambda>u. Post u (auth_handler_of auth) GetProfilesMessage)
                 (tried_until (\<lambda>u. yields u \<noteq> []) eps))"
    by (simp add: snapshot_get_media_profiles_def media_profiles_loop_eq[of parsed prt] Let_def)
next
  assume "requests_post e media_url (auth_handler_of auth) GetProfilesMessage = Raised err"
  then show "fst (endpoint_profiles e media_url auth) = []"
    by (rule endpoint_profiles_swallows(1))
next
  assume "requests_post e media_url (auth_handler_of auth) GetProfilesMessage = Responded r
        \<and> (status_code r \<noteq> 200 \<or> (\<exists>err. text_xml r = Inl err)
            \<or> (\<exists>root err. text_xml r = Inr root \<and> profile_elements e soap_namespaces root = Inl err))"
  then show "fst (endpoint_profiles e media_url auth) = []"
    using endpoint_profiles_swallows(2) by blast
next
  assume "urls device = [] \<or> (\<exists>err. urlparse (hd (urls device)) = Inl err)
        \<or> (\<exists>p err. urlparse (hd (urls device)) = Inr p \<and> port p = Inl err)"
  then show "snapshot_get_media_profiles e device auth = ([], [])"
    by (rule media_profiles_outer_error)
qed

lemma tplink_facts:
  "get_context (dname tplink_device) = Inr tp_link"
  "urls tplink_device = ''http://cam2:2020/onvif/device_service'' # []"
  "urlparse ''http://cam2:2020/onvif/device_service'' = Inr tplink_parsed"
  "port tplink_parsed = Inr (Some 2020)"
  by code_simp+

lemma tplink_endpoints:
  "map (media_url_of tplink_parsed (Some 2020)) (media_services tp_link)
     = [''http://cam2:2020/onvif/media_service'', ''http://cam2:2020/onvif/device_service'',
        ''http://cam2:2020/onvif/service'']"
  by code_simp

lemma tplink_yields:
  "fst (endpoint_profiles soap_env ''http://cam2:2020/onvif/media_service'' (''admin'', ''pw'', ''Digest'')) = []"
  "fst (endpoint_profiles soap_env ''http://cam2:2020/onvif/device_service'' (''admin'', ''pw'', ''Digest''))
     = [\<lparr>token = ''Profile_1'', profile_name = []\<rparr>]"
  by code_simp+

theorem media_profiles_first_endpoint_witness:
  "get_context (dname tplink_device) = Inr tp_link
   \<and> urls tplink_device = [''http://cam2:2020/onvif/device_service'']
   \<and> urlparse ''http://cam2:2020/onvif/device_service'' = Inr tplink_parsed
   \<and> port tplink_parsed = Inr (Some 2020)
   \<and> requests_post soap_env ''http://cam2:2020/onvif/media_service''
        (auth_handler_of (''admin'', ''pw'', ''Digest'')) GetProfilesMessage = Raised Timeout
   \<and> snapshot_get_media_profiles soap_env tplink_device (''admin'', ''pw'', ''Digest'')
       = ([\<lparr>token = ''Profile_1'', profile_name = []\<rparr>],
          [Post ''http://cam2:2020/onvif/media_service'' (HTTPDigestAuth ''admin'' ''pw'')
             GetProfilesMessage,
           Post ''http://cam2:2020/onvif/device_service'' (HTTPDigestAuth ''admin'' ''pw'')
             GetProfilesMessage])
   \<and> urls (tplink_device\<lparr>urls := []\<rparr>) = []
   \<and> snapshot_get_media_profiles soap_env (tplink_device\<lparr>urls := []\<rparr>)
        (''admin'', ''pw'', ''Digest'') = ([], [])"
proof -
  let ?a = "(''admin'', ''pw'', ''Digest'')"
  note t = media_profiles_first_endpoint[where e = soap_env and auth = ?a]
  have raised: "requests_post soap_env ''http://cam2:2020/onvif/media_service''
        (auth_handler_of ?a) GetProfilesMessage = Raised Timeout"
    by (simp add: soap_env_def)
  from t[where media_url = "''http://cam2:2020/onvif/media_service''" and err = Timeout] raised
  have y1: "fst (endpoint_profiles soap_env ''http://cam2:2020/onvif/media_service'' ?a) = []"
    by blast
  have ah: "auth_handler_of ?a = HTTPDigestAuth ''admin'' ''pw''"
    by (simp add: auth_handler_of_def)
  from t[where device = tplink_device and ctx = tp_link and parsed = tplink_parsed
      and prt = "Some 2020" and first_url = "''http://cam2:2020/onvif/device_service''" and others = "[]"]
    tplink_facts
  have "snapshot_get_media_profiles soap_env tplink_device ?a
       = ([\<lparr>token = ''Profile_1'', profile_name = []\<rparr>],
          [Post ''http://cam2:2020/onvif/media_service'' (HTTPDigestAuth ''admin'' ''pw'')
             GetProfilesMessage,
           Post ''http://cam2:2020/onvif/device_service'' (HTTPDigestAuth ''admin'' ''pw'')
             GetProfilesMessage])"
    by (simp add: Let_def tplink_endpoints y1 tplink_yields(2) ah)
  moreover have "snapshot_get_media_profiles soap_env (tplink_device\<lparr>urls := []\<rparr>) ?a = ([], [])"
    using t[where device = "tplink_device\<lparr>urls := []\<rparr>"] by simp
  ultimately show ?thesis using tplink_facts raised by simp
qed



section \<open>The entry point\<close>

text \<open>
  Claim C9. For a device without credentials \<^verbatim>\<open>capture_snapshot\<close> returns \<^verbatim>\<open>None\<close>
  at once: no directory is made, no request is sent, no process is run and no file is
  written. With a credential the first thing it does is to make the output directory.
\<close>

theorem capture_snapshot_no_credentials:
  "(valid_credentials device = [] \<longrightarrow> capture_snapshot e device output_dir = (Inr None, []))
   \<and> (valid_credentials device \<noteq> [] \<longrightarrow>
        (\<exists>evs. snd (capture_snapshot e device output_dir) = MakeDirs output_dir # evs))"
  by (auto simp: capture_snapshot_def Let_def split: list.splits sum.splits prod.splits)

theorem capture_snapshot_no_credentials_witness:
  "valid_credentials no_cred_device = []
   \<and> capture_snapshot soap_env no_cred_device ''snapshots'' = (Inr None, [])
   \<and> valid_credentials tplink_device \<noteq> []
   \<and> hd (snd (capture_snapshot soap_env tplink_device ''snapshots'')) = MakeDirs ''snapshots''"
proof -
  have a: "valid_credentials no_cred_device = []" by (simp add: no_cred_device_def)
  have b: "valid_credentials tplink_device \<noteq> []" by (simp add: tplink_device_def)
  from capture_snapshot_no_credentials[of no_cred_device soap_env "''snapshots''"] a
  have c: "capture_snapshot soap_env no_cred_device ''snapshots'' = (Inr None, [])" by blast
  from capture_snapshot_no_credentials[of tplink_device soap_env "''snapshots''"] b
  obtain evs where "snd (capture_snapshot soap_env tplink_device ''snapshots'') = MakeDirs ''snapshots'' # evs"
    by blast
  with a b c show ?thesis by simp
qed


end
